theory Spec2Isabelle
  imports Complex_Main "HOL-Library.Char_ord" "HOL-Library.List_Lexorder"
begin

section \<open>The UK capital gains engine (src/lib/cgt-engine.js)\<close>

text \<open>
  The engine computes with JavaScript numbers. They are modelled as exact rationals:
  every sum, product and quotient below is the mathematical one, and rounding to two
  decimal places is the only rounding. The binary rounding error of IEEE doubles, NaN and
  the infinities are outside this model. The host's local time zone is taken to be UTC, so
  that a local midnight and the UTC midnight of the same calendar day coincide.
\<close>

subsection \<open>Numbers and text\<close>

text \<open>\<^verbatim>\<open>Math.round(x)\<close> is the nearest integer, a tie going up.\<close>

definition Math_round :: "rat \<Rightarrow> int" where
  "Math_round x = \<lfloor>x + 1 / 2\<rfloor>"

definition round2dp :: "rat \<Rightarrow> rat" where
  "round2dp num = of_int (Math_round (num * 100)) / 100"

definition is_digit :: "char \<Rightarrow> bool" where
  "is_digit c = (c \<in> set ''0123456789'')"

definition digit_val :: "char \<Rightarrow> int" where
  "digit_val c = of_char c - 48"

text \<open>\<^verbatim>\<open>parseInt\<close> on a string of decimal digits.\<close>

definition parseInt :: "string \<Rightarrow> int" where
  "parseInt s = foldl (\<lambda>a c. 10 * a + digit_val c) 0 s"

text \<open>The character at a position of a string, counted from 0.\<close>

fun charAt :: "int \<Rightarrow> string \<Rightarrow> char" where
  "charAt n [] = CHR ''0''"
| "charAt n (c # cs) = (if n \<le> 0 then c else charAt (n - 1) cs)"

definition digit_char :: "int \<Rightarrow> char" where
  "digit_char n = charAt n ''0123456789''"

text \<open>The decimal digits of an integer that is not negative.\<close>

function digits_of :: "int \<Rightarrow> string" where
  "digits_of n = (if n < 10 then [digit_char n]
                  else digits_of (n div 10) @ [digit_char (n mod 10)])"
  by pat_completeness auto
termination
  by (relation "measure nat") auto

declare digits_of.simps [simp del]

text \<open>\<^verbatim>\<open>String(n)\<close> for an integer \<open>n\<close>.\<close>

definition toString :: "int \<Rightarrow> string" where
  "toString n = (if n < 0 then CHR ''-'' # digits_of (- n) else digits_of n)"

text \<open>\<^verbatim>\<open>s.padStart(2, '0')\<close>\<close>

definition padStart2 :: "string \<Rightarrow> string" where
  "padStart2 s = replicate (2 - length s) CHR ''0'' @ s"

text \<open>\<^verbatim>\<open>s.slice(-2)\<close>\<close>

definition slice_last2 :: "string \<Rightarrow> string" where
  "slice_last2 s = drop (length s - 2) s"

definition upper_char :: "char \<Rightarrow> char" where
  "upper_char c =
     (case map_of (zip ''abcdefghijklmnopqrstuvwxyz'' ''ABCDEFGHIJKLMNOPQRSTUVWXYZ'') c of
        Some u \<Rightarrow> u | None \<Rightarrow> c)"

definition toUpperCase :: "string \<Rightarrow> string" where
  "toUpperCase s = map upper_char s"

definition is_space :: "char \<Rightarrow> bool" where
  "is_space c = (c \<in> {CHR '' '', CHR 0x09, CHR 0x0A, CHR 0x0B, CHR 0x0C, CHR 0x0D})"

definition trim :: "string \<Rightarrow> string" where
  "trim s = rev (dropWhile is_space (rev (dropWhile is_space s)))"

text \<open>\<^verbatim>\<open>x || d\<close> on a string that may be missing, and on the result of
  \<^verbatim>\<open>parseFloat\<close> (\<open>None\<close> is NaN).\<close>

definition str_or :: "string option \<Rightarrow> string \<Rightarrow> string" where
  "str_or x d = (case x of None \<Rightarrow> d | Some s \<Rightarrow> if s = [] then d else s)"

definition num_or :: "rat option \<Rightarrow> rat \<Rightarrow> rat" where
  "num_or x d = (case x of None \<Rightarrow> d | Some v \<Rightarrow> if v = 0 then d else v)"

subsection \<open>Dates\<close>

text \<open>
  A \<^verbatim>\<open>Date\<close> is its time value, the milliseconds since 1970-01-01T00:00Z. The
  calendar fields are those of the proleptic Gregorian calendar, as ECMAScript defines
  them; an invalid \<^verbatim>\<open>Date\<close> (time value NaN) is outside the model.
\<close>

datatype Date = Date (getTime: int)

definition msPerDay :: int where
  "msPerDay = 86400000"

text \<open>
  The day number of a calendar date and the calendar date of a day number (day 0 is
  1970-01-01), by the usual computation with eras of 400 years that start on 1 March.
  Each step hands its results to the next one as arguments.
\<close>

definition days_of_era :: "int \<Rightarrow> int \<Rightarrow> int \<Rightarrow> int" where
  "days_of_era era yoe doy = era * 146097 + (yoe * 365 + yoe div 4 - yoe div 100 + doy) - 719468"

definition days_of_year :: "int \<Rightarrow> int \<Rightarrow> int" where
  "days_of_year y1 doy = days_of_era (y1 div 400) (y1 - (y1 div 400) * 400) doy"

definition days_from_civil :: "int \<Rightarrow> int \<Rightarrow> int \<Rightarrow> int" where
  "days_from_civil y m d =
     days_of_year (if m \<le> 2 then y - 1 else y)
       ((153 * (if m > 2 then m - 3 else m + 9) + 2) div 5 + d - 1)"

definition civil_of_month :: "int \<Rightarrow> int \<Rightarrow> int \<Rightarrow> int \<times> int \<times> int" where
  "civil_of_month y m d = (y + (if m \<le> 2 then 1 else 0), m, d)"

definition civil_of_mp :: "int \<Rightarrow> int \<Rightarrow> int \<Rightarrow> int \<times> int \<times> int" where
  "civil_of_mp y doy mp =
     civil_of_month y (if mp < 10 then mp + 3 else mp - 9) (doy - (153 * mp + 2) div 5 + 1)"

definition civil_of_doy :: "int \<Rightarrow> int \<Rightarrow> int \<times> int \<times> int" where
  "civil_of_doy y doy = civil_of_mp y doy ((5 * doy + 2) div 153)"

definition civil_of_yoe :: "int \<Rightarrow> int \<Rightarrow> int \<Rightarrow> int \<times> int \<times> int" where
  "civil_of_yoe era doe yoe =
     civil_of_doy (yoe + era * 400) (doe - (365 * yoe + yoe div 4 - yoe div 100))"

definition civil_of_doe :: "int \<Rightarrow> int \<Rightarrow> int \<times> int \<times> int" where
  "civil_of_doe era doe =
     civil_of_yoe era doe ((doe - doe div 1460 + doe div 36524 - doe div 146096) div 365)"

definition civil_of_shifted :: "int \<Rightarrow> int \<times> int \<times> int" where
  "civil_of_shifted z1 = civil_of_doe (z1 div 146097) (z1 - (z1 div 146097) * 146097)"

definition civil_from_days :: "int \<Rightarrow> int \<times> int \<times> int" where
  "civil_from_days z = civil_of_shifted (z + 719468)"

definition getFullYear :: "Date \<Rightarrow> int" where
  "getFullYear t = fst (civil_from_days (getTime t div msPerDay))"

text \<open>\<^verbatim>\<open>getMonth\<close> counts from 0.\<close>

definition getMonth :: "Date \<Rightarrow> int" where
  "getMonth t = fst (snd (civil_from_days (getTime t div msPerDay))) - 1"

definition getDate :: "Date \<Rightarrow> int" where
  "getDate t = snd (snd (civil_from_days (getTime t div msPerDay)))"

text \<open>\<^verbatim>\<open>new Date(year, monthIndex, day)\<close>: a year from 0 to 99 means 1900 + year, and a
  month or day out of range carries over.\<close>

definition newDate :: "int \<Rightarrow> int \<Rightarrow> int \<Rightarrow> Date" where
  "newDate year monthIndex day =
     (let yr = (if 0 \<le> year \<and> year \<le> 99 then 1900 + year else year);
          ym = yr + monthIndex div 12;
          mn = monthIndex mod 12
      in Date ((days_from_civil ym (mn + 1) 1 + day - 1) * msPerDay))"

text \<open>\<^verbatim>\<open>new Date("YYYY-MM-DD")\<close> of the tax-year table: a valid calendar day at 00:00Z.\<close>

definition isoDate :: "int \<Rightarrow> int \<Rightarrow> int \<Rightarrow> Date" where
  "isoDate y m d = Date (days_from_civil y m d * msPerDay)"

definition formatDateLocal :: "Date \<Rightarrow> string" where
  "formatDateLocal date =
     (let year = getFullYear date;
          month = padStart2 (toString (getMonth date + 1));
          day = padStart2 (toString (getDate date))
      in toString year @ ''-'' @ month @ ''-'' @ day)"

text \<open>The three regular expressions of \<^verbatim>\<open>parseDate\<close>.
  \<^verbatim>\<open>/^(\d{4})-(\d{2})-(\d{2})/\<close> matches a prefix:\<close>

definition isoMatch :: "string \<Rightarrow> (string \<times> string \<times> string) option" where
  "isoMatch str =
     (let year = take 4 str; month = take 2 (drop 5 str); day = take 2 (drop 8 str)
      in if 10 \<le> length str \<and> list_all is_digit year \<and> str ! 4 = CHR ''-''
            \<and> list_all is_digit month \<and> str ! 7 = CHR ''-'' \<and> list_all is_digit day
         then Some (year, month, day) else None)"

text \<open>\<^verbatim>\<open>/^(\d{1,2})\/(\d{1,2})\/(\d{4})$/\<close> matches the whole string:\<close>

definition slashMatch :: "string \<Rightarrow> (string \<times> string \<times> string) option" where
  "slashMatch str =
     (let first = takeWhile is_digit str;
          rest1 = drop (length first) str;
          second = takeWhile is_digit (drop 1 rest1);
          rest2 = drop (length second) (drop 1 rest1);
          year = drop 1 rest2
      in if 1 \<le> length first \<and> length first \<le> 2 \<and> take 1 rest1 = ''/''
            \<and> 1 \<le> length second \<and> length second \<le> 2 \<and> take 1 rest2 = ''/''
            \<and> length year = 4 \<and> list_all is_digit year
         then Some (first, second, year) else None)"

text \<open>\<^verbatim>\<open>/^(\d{2})-(\d{2})-(\d{4})$/\<close> matches the whole string:\<close>

definition dashMatch :: "string \<Rightarrow> (string \<times> string \<times> string) option" where
  "dashMatch str =
     (let day = take 2 str; month = take 2 (drop 3 str); year = drop 6 str
      in if length str = 10 \<and> list_all is_digit day \<and> str ! 2 = CHR ''-''
            \<and> list_all is_digit month \<and> str ! 5 = CHR ''-'' \<and> list_all is_digit year
         then Some (day, month, year) else None)"

text \<open>What a raw record carries as its date: a \<^verbatim>\<open>Date\<close> object, a string, or a
  falsy value (null, undefined).\<close>

datatype raw_date = DateObject Date | DateString string | DateMissing

text \<open>
  \<^verbatim>\<open>parseDate\<close>. Its last resort is \<^verbatim>\<open>new Date(str)\<close>, whose result on a string
  that is not in the ISO format is left to the host by ECMAScript: it is the parameter
  \<open>hostParse\<close>, \<open>None\<close> where the host yields an invalid date. \<open>None\<close> is the
  \<^verbatim>\<open>null\<close> that \<^verbatim>\<open>parseDate\<close> returns.
\<close>

definition parseDateStr :: "(string \<Rightarrow> Date option) \<Rightarrow> string \<Rightarrow> Date option" where
  "parseDateStr hostParse dateStr =
     (if dateStr = [] then None
      else let str = trim dateStr in
        if str = [] then None
        else case isoMatch str of
          Some (year, month, day) \<Rightarrow>
            Some (newDate (parseInt year) (parseInt month - 1) (parseInt day))
        | None \<Rightarrow>
         (case slashMatch str of
            Some (first, second, year) \<Rightarrow>
              (let firstNum = parseInt first; secondNum = parseInt second;
                   yearNum = parseInt year
               in if firstNum > 12 then Some (newDate yearNum (secondNum - 1) firstNum)
                  else if secondNum > 12 then Some (newDate yearNum (firstNum - 1) secondNum)
                  else Some (newDate yearNum (firstNum - 1) secondNum))
          | None \<Rightarrow>
           (case dashMatch str of
              Some (day, month, year) \<Rightarrow>
                Some (newDate (parseInt year) (parseInt month - 1) (parseInt day))
            | None \<Rightarrow>
               (case (if CHR '' '' \<in> set str then isoMatch (takeWhile (\<lambda>c. c \<noteq> CHR '' '') str)
                      else None) of
                  Some (year, month, day) \<Rightarrow>
                    Some (newDate (parseInt year) (parseInt month - 1) (parseInt day))
                | None \<Rightarrow> hostParse str))))"

definition parseDate :: "(string \<Rightarrow> Date option) \<Rightarrow> raw_date \<Rightarrow> Date option" where
  "parseDate hostParse dateStr =
     (case dateStr of
        DateObject d \<Rightarrow> Some d
      | DateMissing \<Rightarrow> None
      | DateString s \<Rightarrow> parseDateStr hostParse s)"

definition isSameDay :: "Date \<Rightarrow> Date \<Rightarrow> bool" where
  "isSameDay date1 date2 =
     (getFullYear date1 = getFullYear date2 \<and> getMonth date1 = getMonth date2
      \<and> getDate date1 = getDate date2)"

definition getDaysDifference :: "Date \<Rightarrow> Date \<Rightarrow> int" where
  "getDaysDifference date1 date2 =
     Math_round (of_int (getTime date2 - getTime date1) / of_int msPerDay)"

subsection \<open>Transactions and their normalization\<close>

text \<open>
  A raw record, as the callers hand it over. The numeric fields are given as what
  \<^verbatim>\<open>parseFloat\<close> makes of them: \<open>None\<close> is NaN (a missing or non-numeric field).
  \<open>r_totalAmount\<close> is \<open>None\<close> for \<^verbatim>\<open>null\<close>; a total that is neither
  \<^verbatim>\<open>null\<close> nor numeric is outside the model.
\<close>

record raw_txn =
  r_date :: raw_date
  r_type :: string
  r_symbol :: string
  r_assetName :: "string option"
  r_quantity :: "rat option"
  r_pricePerUnit :: "rat option"
  r_totalAmount :: "rat option"
  r_fees :: "rat option"
  r_currency :: "string option"
  r_exchangeRate :: "rat option"
  r_broker :: "string option"

record txn =
  t_id :: string
  t_date :: Date
  t_type :: string
  t_symbol :: string
  t_assetName :: string
  t_quantity :: rat
  t_pricePerUnit :: rat
  t_totalAmount :: "rat option"
  t_fees :: rat
  t_currency :: string
  t_exchangeRate :: rat
  t_broker :: string
  t_used :: bool
  t_remainingQty :: rat

text \<open>
  The body of the \<^verbatim>\<open>map\<close> in \<^verbatim>\<open>normalizeTransactions\<close>. \<open>now\<close> is what
  \<^verbatim>\<open>Date.now()\<close> reads while the record at \<open>index\<close> is mapped.
\<close>

definition normalizeOne ::
  "(string \<Rightarrow> Date option) \<Rightarrow> (nat \<Rightarrow> int) \<Rightarrow> nat \<times> raw_txn \<Rightarrow> txn option" where
  "normalizeOne hostParse now it =
     (case it of (index, t) \<Rightarrow>
       (case parseDate hostParse (r_date t) of
          None \<Rightarrow> None
        | Some parsedDate \<Rightarrow> Some
            \<lparr> t_id = ''txn-'' @ toString (int index) @ ''-'' @ toString (now index),
              t_date = parsedDate,
              t_type = toUpperCase (r_type t),
              t_symbol = trim (toUpperCase (r_symbol t)),
              t_assetName = str_or (r_assetName t) (r_symbol t),
              t_quantity = \<bar>num_or (r_quantity t) 0\<bar>,
              t_pricePerUnit = num_or (r_pricePerUnit t) 0,
              t_totalAmount = r_totalAmount t,
              t_fees = num_or (r_fees t) 0,
              t_currency = str_or (r_currency t) ''GBP'',
              t_exchangeRate = num_or (r_exchangeRate t) 1,
              t_broker = str_or (r_broker t) ''Unknown'',
              t_used = False,
              t_remainingQty = \<bar>num_or (r_quantity t) 0\<bar> \<rparr>))"

text \<open>The \<^verbatim>\<open>filter\<close> keeps what is not \<^verbatim>\<open>null\<close> and has a positive quantity; the
  \<^verbatim>\<open>sort\<close> is stable and ascending in the time value.\<close>

definition kept :: "txn option \<Rightarrow> bool" where
  "kept t = (case t of None \<Rightarrow> False | Some t \<Rightarrow> t_quantity t > 0)"

definition normalizeTransactions ::
  "(string \<Rightarrow> Date option) \<Rightarrow> (nat \<Rightarrow> int) \<Rightarrow> raw_txn list \<Rightarrow> txn list" where
  "normalizeTransactions hostParse now transactions =
     sort_key (\<lambda>t. getTime (t_date t))
       (map the (filter kept (map (normalizeOne hostParse now) (enumerate 0 transactions))))"

definition calculateCost :: "txn \<Rightarrow> rat \<Rightarrow> rat" where
  "calculateCost transaction quantity =
     (let proportion = quantity / t_quantity transaction;
          baseCost = (case t_totalAmount transaction of
                        Some totalAmount \<Rightarrow> totalAmount * proportion
                      | None \<Rightarrow> quantity * t_pricePerUnit transaction);
          fees = t_fees transaction * proportion
      in round2dp ((baseCost + fees) / t_exchangeRate transaction))"

definition calculateProceeds :: "txn \<Rightarrow> rat \<Rightarrow> rat" where
  "calculateProceeds transaction quantity =
     (let proportion = quantity / t_quantity transaction;
          baseProceeds = (case t_totalAmount transaction of
                            Some totalAmount \<Rightarrow> totalAmount * proportion
                          | None \<Rightarrow> quantity * t_pricePerUnit transaction);
          fees = t_fees transaction * proportion
      in round2dp ((baseProceeds - fees) / t_exchangeRate transaction))"

subsection \<open>The tax-year table\<close>

record taxYearConfig =
  c_start :: Date
  c_end :: Date
  c_annualExemption :: rat
  c_rateChangeDate :: "Date option"
  c_basicRateSharesPre :: "rat option"
  c_higherRateSharesPre :: "rat option"
  c_basicRateSharesPost :: "rat option"
  c_higherRateSharesPost :: "rat option"
  c_basicRateShares :: rat
  c_higherRateShares :: rat
  c_basicRateProperty :: rat
  c_higherRateProperty :: rat

text \<open>An entry of the table that has no rate change within the year.\<close>

definition plainYear :: "Date \<Rightarrow> Date \<Rightarrow> rat \<Rightarrow> rat \<Rightarrow> rat \<Rightarrow> rat \<Rightarrow> rat \<Rightarrow> taxYearConfig" where
  "plainYear start end exemption basic higher basicProperty higherProperty =
     \<lparr> c_start = start, c_end = end, c_annualExemption = exemption, c_rateChangeDate = None,
       c_basicRateSharesPre = None, c_higherRateSharesPre = None,
       c_basicRateSharesPost = None, c_higherRateSharesPost = None,
       c_basicRateShares = basic, c_higherRateShares = higher,
       c_basicRateProperty = basicProperty, c_higherRateProperty = higherProperty \<rparr>"

definition TAX_YEARS :: "(string \<times> taxYearConfig) list" where
  "TAX_YEARS =
     [(''2025/26'', plainYear (isoDate 2025 4 6) (isoDate 2026 4 5) 3000
                      (10 / 100) (20 / 100) (18 / 100) (24 / 100)),
      (''2024/25'',
         \<lparr> c_start = isoDate 2024 4 6, c_end = isoDate 2025 4 5, c_annualExemption = 3000,
           c_rateChangeDate = Some (isoDate 2024 10 30),
           c_basicRateSharesPre = Some (10 / 100), c_higherRateSharesPre = Some (20 / 100),
           c_basicRateSharesPost = Some (18 / 100), c_higherRateSharesPost = Some (24 / 100),
           c_basicRateShares = 18 / 100, c_higherRateShares = 24 / 100,
           c_basicRateProperty = 18 / 100, c_higherRateProperty = 24 / 100 \<rparr>),
      (''2023/24'', plainYear (isoDate 2023 4 6) (isoDate 2024 4 5) 6000
                      (10 / 100) (20 / 100) (18 / 100) (28 / 100)),
      (''2022/23'', plainYear (isoDate 2022 4 6) (isoDate 2023 4 5) 12300
                      (10 / 100) (20 / 100) (18 / 100) (28 / 100)),
      (''2021/22'', plainYear (isoDate 2021 4 6) (isoDate 2022 4 5) 12300
                      (10 / 100) (20 / 100) (18 / 100) (28 / 100)),
      (''2020/21'', plainYear (isoDate 2020 4 6) (isoDate 2021 4 5) 12300
                      (10 / 100) (20 / 100) (18 / 100) (28 / 100)),
      (''2019/20'', plainYear (isoDate 2019 4 6) (isoDate 2020 4 5) 12000
                      (10 / 100) (20 / 100) (18 / 100) (28 / 100)),
      (''2018/19'', plainYear (isoDate 2018 4 6) (isoDate 2019 4 5) 11700
                      (10 / 100) (20 / 100) (18 / 100) (28 / 100)),
      (''2017/18'', plainYear (isoDate 2017 4 6) (isoDate 2018 4 5) 11300
                      (10 / 100) (20 / 100) (18 / 100) (28 / 100))]"

text \<open>
  \<^verbatim>\<open>getTaxYear\<close> returns the label with the configuration. Outside the table the
  label is computed from the calendar fields and the configuration is a default one. The
  message it writes to the console there is not part of the model.
\<close>

definition taxYearLabel :: "int \<Rightarrow> string" where
  "taxYearLabel taxYearStart =
     toString taxYearStart @ ''/'' @ slice_last2 (toString (taxYearStart + 1))"

definition getTaxYear :: "Date \<Rightarrow> string \<times> taxYearConfig" where
  "getTaxYear date =
     (case find (\<lambda>(year, config). getTime date \<ge> getTime (c_start config)
                                  \<and> getTime date \<le> getTime (c_end config)) TAX_YEARS of
        Some (year, config) \<Rightarrow> (year, config)
      | None \<Rightarrow>
         (let year = getFullYear date; month = getMonth date; day = getDate date;
              taxYearStart = (if month < 3 \<or> (month = 3 \<and> day < 6) then year - 1 else year)
          in (taxYearLabel taxYearStart,
              plainYear (isoDate taxYearStart 4 6) (isoDate (taxYearStart + 1) 4 5) 11300
                (10 / 100) (20 / 100) (18 / 100) (28 / 100))))"

subsection \<open>The calculator\<close>

record pool =
  p_quantity :: rat
  p_cost :: rat

datatype rule = SAME_DAY | BED_AND_BREAKFAST | SECTION_104

text \<open>The sentence of \<^verbatim>\<open>bnbImpact.explanation\<close> is one of two, each with an amount.\<close>

datatype explanation = IncreasedCostBasis rat | DecreasedCostBasis rat

record bnbImpact =
  s104CostPerShareWouldBe :: rat
  actualCostPerShare :: rat
  costDifference :: rat
  explanation :: explanation

text \<open>The fields of a match detail that depend on the rule.\<close>

datatype ruleInfo =
    SameDayInfo (acquisitionDate: string) (broker: string) (isRSU: bool)
  | BnbInfo (acquisitionDate: string) (daysDifference: int) (broker: string) (isRSU: bool)
      (originalCurrency: string) (originalCostPerShare: rat) (exchangeRate: rat)
      (impact: bnbImpact)
  | Section104Info (averageCost: rat) (poolQuantityBefore: rat) (poolQuantityAfter: rat)

record matchDetail =
  md_rule :: rule
  md_quantity :: rat
  md_cost :: rat
  md_costPerShare :: rat
  md_proceedsPerShare :: rat
  md_gainPerShare :: rat
  md_info :: ruleInfo

record disposal =
  d_id :: string
  d_symbol :: string
  d_assetName :: string
  d_date :: string
  d_quantity :: rat
  d_proceeds :: rat
  d_proceedsPerShare :: rat
  d_cost :: rat
  d_costPerShare :: rat
  d_gain :: rat
  d_gainPerShare :: rat
  d_taxYear :: string
  d_matchDetails :: "matchDetail list"
  d_broker :: string

record acquisition =
  a_symbol :: string
  a_date :: string
  a_quantity :: rat
  a_totalCost :: rat
  a_costPerShare :: rat
  a_broker :: string
  a_isRSU :: bool
  a_priceSource :: string

text \<open>An entry of the errors list; its \<^verbatim>\<open>message\<close> repeats the three values in a
  sentence and is left out.\<close>

record errorEntry =
  e_type :: string
  e_symbol :: string
  e_date :: string
  e_unmatchedQuantity :: rat

text \<open>
  The state of a \<^verbatim>\<open>CGTCalculator\<close>. The pools are kept in the order in which their
  symbols were first stored. \<^verbatim>\<open>section104History\<close> and
  \<^verbatim>\<open>section104Snapshots\<close> are written but never read by the engine, and are left out.
\<close>

record calc =
  section104Pools :: "(string \<times> pool) list"
  disposals :: "disposal list"
  acquisitions :: "acquisition list"
  errors :: "errorEntry list"

definition newCalculator :: calc where
  "newCalculator = \<lparr> section104Pools = [], disposals = [], acquisitions = [], errors = [] \<rparr>"

text \<open>\<^verbatim>\<open>this.section104Pools[symbol]\<close>, read and stored. \<^verbatim>\<open>processSymbol\<close> creates the
  pool of its symbol before it reads it.\<close>

definition emptyPool :: pool where
  "emptyPool = \<lparr> p_quantity = 0, p_cost = 0 \<rparr>"

definition poolOf :: "calc \<Rightarrow> string \<Rightarrow> pool" where
  "poolOf st symbol =
     (case map_of (section104Pools st) symbol of
        Some p \<Rightarrow> p | None \<Rightarrow> emptyPool)"

text \<open>\<^verbatim>\<open>object[key] = value\<close> on an object kept as a list of its entries.\<close>

fun store :: "'k \<Rightarrow> 'v \<Rightarrow> ('k \<times> 'v) list \<Rightarrow> ('k \<times> 'v) list" where
  "store key v [] = [(key, v)]"
| "store key v ((k, w) # rest) =
     (if k = key then (k, v) # rest else (k, w) # store key v rest)"

subsection \<open>Matching one disposal\<close>

text \<open>
  \<^verbatim>\<open>processDisposal\<close> filters the array \<^verbatim>\<open>buys\<close> and then updates
  \<^verbatim>\<open>remainingQty\<close> on the objects it selected, which are the objects of \<^verbatim>\<open>buys\<close>.
  Here \<^verbatim>\<open>buys\<close> is a list, a selection is the list of the selected positions in
  ascending order, and an update of an object is an update of the list at its position.
\<close>

fun selectFrom :: "nat \<Rightarrow> (txn \<Rightarrow> bool) \<Rightarrow> txn list \<Rightarrow> nat list" where
  "selectFrom i P [] = []"
| "selectFrom i P (b # rest) =
     (if P b then i # selectFrom (Suc i) P rest else selectFrom (Suc i) P rest)"

definition select :: "(txn \<Rightarrow> bool) \<Rightarrow> txn list \<Rightarrow> nat list" where
  "select P buys = selectFrom 0 P buys"

text \<open>The running values of \<^verbatim>\<open>processDisposal\<close>: \<^verbatim>\<open>remainingQty\<close>,
  \<^verbatim>\<open>totalCost\<close>, the acquisitions and \<^verbatim>\<open>matchDetails\<close>.\<close>

type_synonym matching = "rat \<times> rat \<times> txn list \<times> matchDetail list"

text \<open>The loop shared by the same-day rule and the bed-and-breakfast rule; \<open>detail\<close>
  builds the entry pushed to \<^verbatim>\<open>matchDetails\<close>.\<close>

fun matchBuys :: "(txn \<Rightarrow> rat \<Rightarrow> rat \<Rightarrow> matchDetail) \<Rightarrow> nat list \<Rightarrow> matching \<Rightarrow> matching" where
  "matchBuys detail [] m = m"
| "matchBuys detail (i # rest) (remainingQty, totalCost, buys, matchDetails) =
     (if remainingQty \<le> 0 then (remainingQty, totalCost, buys, matchDetails)
      else let buy = buys ! i;
               matchQty = min remainingQty (t_remainingQty buy);
               matchCost = calculateCost buy matchQty
           in matchBuys detail rest
                (remainingQty - matchQty, totalCost + matchCost,
                 buys[i := buy\<lparr>t_remainingQty := t_remainingQty buy - matchQty\<rparr>],
                 matchDetails @ [detail buy matchQty matchCost]))"

definition sameDayDetail :: "rat \<Rightarrow> txn \<Rightarrow> rat \<Rightarrow> rat \<Rightarrow> matchDetail" where
  "sameDayDetail proceedsPerShare buy matchQty matchCost =
     (let costPerShare = round2dp (matchCost / matchQty)
      in \<lparr> md_rule = SAME_DAY, md_quantity = matchQty, md_cost = matchCost,
           md_costPerShare = costPerShare, md_proceedsPerShare = proceedsPerShare,
           md_gainPerShare = round2dp (proceedsPerShare - costPerShare),
           md_info = SameDayInfo (formatDateLocal (t_date buy)) (t_broker buy)
                       (t_broker buy = ''Charles Schwab'') \<rparr>)"

definition bnbDetail :: "rat \<Rightarrow> Date \<Rightarrow> pool \<Rightarrow> txn \<Rightarrow> rat \<Rightarrow> rat \<Rightarrow> matchDetail" where
  "bnbDetail proceedsPerShare disposalDate pool buy matchQty matchCost =
     (let costPerShare = round2dp (matchCost / matchQty);
          daysDiff = getDaysDifference disposalDate (t_date buy);
          s104AvgCost = (if p_quantity pool > 0 then round2dp (p_cost pool / p_quantity pool)
                         else 0);
          originalCurrency = (if t_currency buy = [] then ''GBP'' else t_currency buy);
          originalCostPerShare = round2dp (t_pricePerUnit buy);
          exchangeRate = (if t_exchangeRate buy = 0 then 1 else t_exchangeRate buy)
      in \<lparr> md_rule = BED_AND_BREAKFAST, md_quantity = matchQty, md_cost = matchCost,
           md_costPerShare = costPerShare, md_proceedsPerShare = proceedsPerShare,
           md_gainPerShare = round2dp (proceedsPerShare - costPerShare),
           md_info = BnbInfo (formatDateLocal (t_date buy)) daysDiff (t_broker buy)
                       (t_broker buy = ''Charles Schwab'')
                       originalCurrency originalCostPerShare exchangeRate
                       \<lparr> s104CostPerShareWouldBe = s104AvgCost,
                         actualCostPerShare = costPerShare,
                         costDifference = round2dp (costPerShare - s104AvgCost),
                         explanation =
                           (if costPerShare > s104AvgCost
                            then IncreasedCostBasis (round2dp (costPerShare - s104AvgCost))
                            else DecreasedCostBasis (round2dp (s104AvgCost - costPerShare))) \<rparr> \<rparr>)"

text \<open>1. The same-day rule.\<close>

definition sameDayCandidate :: "txn \<Rightarrow> txn \<Rightarrow> bool" where
  "sameDayCandidate disposal b = (isSameDay (t_date b) (t_date disposal) \<and> t_remainingQty b > 0)"

definition sameDayBuys :: "txn \<Rightarrow> txn list \<Rightarrow> nat list" where
  "sameDayBuys disposal buys = select (sameDayCandidate disposal) buys"

definition sameDayRule :: "txn \<Rightarrow> rat \<Rightarrow> matching \<Rightarrow> matching" where
  "sameDayRule disposal proceedsPerShare m =
     (case m of (remainingQty, totalCost, buys, matchDetails) \<Rightarrow>
        matchBuys (sameDayDetail proceedsPerShare) (sameDayBuys disposal buys) m)"

text \<open>2. The bed-and-breakfast rule: acquisitions within 30 days after the disposal.\<close>

definition inWindow :: "int \<Rightarrow> bool" where
  "inWindow daysDiff = (daysDiff > 0 \<and> daysDiff \<le> 30)"

definition bnbCandidate :: "txn \<Rightarrow> txn \<Rightarrow> bool" where
  "bnbCandidate disposal b =
     (inWindow (getDaysDifference (t_date disposal) (t_date b)) \<and> t_remainingQty b > 0)"

definition bnbBuys :: "txn \<Rightarrow> txn list \<Rightarrow> nat list" where
  "bnbBuys disposal buys =
     sort_key (\<lambda>i. getTime (t_date (buys ! i))) (select (bnbCandidate disposal) buys)"

definition bnbRule :: "txn \<Rightarrow> rat \<Rightarrow> pool \<Rightarrow> matching \<Rightarrow> matching" where
  "bnbRule disposal proceedsPerShare pool m =
     (case m of (remainingQty, totalCost, buys, matchDetails) \<Rightarrow>
        if remainingQty > 0
        then matchBuys (bnbDetail proceedsPerShare (t_date disposal) pool)
               (bnbBuys disposal buys) m
        else m)"

text \<open>3. The Section 104 pool: the earlier acquisitions are rolled into the pool, then the
  pool is drawn on at its average cost.\<close>

definition earlierCandidate :: "txn \<Rightarrow> txn \<Rightarrow> bool" where
  "earlierCandidate disposal b =
     (getTime (t_date b) < getTime (t_date disposal) \<and> t_remainingQty b > 0)"

definition earlierBuys :: "txn \<Rightarrow> txn list \<Rightarrow> nat list" where
  "earlierBuys disposal buys = select (earlierCandidate disposal) buys"

fun rollEarlier :: "nat list \<Rightarrow> txn list \<times> pool \<Rightarrow> txn list \<times> pool" where
  "rollEarlier [] bp = bp"
| "rollEarlier (i # rest) (buys, pool) =
     (let buy = buys ! i;
          cost = calculateCost buy (t_remainingQty buy)
      in rollEarlier rest
           (buys[i := buy\<lparr>t_remainingQty := 0\<rparr>],
            \<lparr> p_quantity = p_quantity pool + t_remainingQty buy,
              p_cost = p_cost pool + cost \<rparr>))"

definition drawFromPool :: "rat \<Rightarrow> matching \<times> pool \<Rightarrow> matching \<times> pool" where
  "drawFromPool proceedsPerShare mp =
     (case mp of ((remainingQty, totalCost, buys, matchDetails), pool) \<Rightarrow>
        if p_quantity pool > 0
        then let matchQty = min remainingQty (p_quantity pool);
                 avgCost = p_cost pool / p_quantity pool;
                 matchCost = round2dp (matchQty * avgCost);
                 costPerShare = round2dp avgCost;
                 pool' = \<lparr> p_quantity = p_quantity pool - matchQty,
                           p_cost = p_cost pool - matchCost \<rparr>
             in ((remainingQty - matchQty, totalCost + matchCost, buys,
                  matchDetails @
                    [\<lparr> md_rule = SECTION_104, md_quantity = matchQty, md_cost = matchCost,
                       md_costPerShare = costPerShare, md_proceedsPerShare = proceedsPerShare,
                       md_gainPerShare = round2dp (proceedsPerShare - costPerShare),
                       md_info = Section104Info (round2dp avgCost)
                                   (round2dp (p_quantity pool' + matchQty))
                                   (round2dp (p_quantity pool')) \<rparr>]),
                 pool')
        else mp)"

definition section104Rule :: "txn \<Rightarrow> rat \<Rightarrow> matching \<times> pool \<Rightarrow> matching \<times> pool" where
  "section104Rule disposal proceedsPerShare mp =
     (case mp of ((remainingQty, totalCost, buys, matchDetails), pool) \<Rightarrow>
        if remainingQty > 0
        then (case rollEarlier (earlierBuys disposal buys) (buys, pool) of
                (buys', pool') \<Rightarrow>
                  drawFromPool proceedsPerShare
                    ((remainingQty, totalCost, buys', matchDetails), pool'))
        else mp)"

text \<open>The three rules in the order of \<^verbatim>\<open>processDisposal\<close>, from the running values
  before the first rule to those after the third.\<close>

definition proceedsPerShareOf :: "txn \<Rightarrow> rat" where
  "proceedsPerShareOf disposal =
     round2dp (calculateProceeds disposal (t_quantity disposal) / t_quantity disposal)"

definition afterSameDay :: "txn \<Rightarrow> txn list \<Rightarrow> matching" where
  "afterSameDay disposal buys =
     sameDayRule disposal (proceedsPerShareOf disposal) (t_quantity disposal, 0, buys, [])"

definition afterBnb :: "txn \<Rightarrow> txn list \<Rightarrow> pool \<Rightarrow> matching" where
  "afterBnb disposal buys pool =
     bnbRule disposal (proceedsPerShareOf disposal) pool (afterSameDay disposal buys)"

definition matchDisposal :: "txn \<Rightarrow> txn list \<Rightarrow> pool \<Rightarrow> matching \<times> pool" where
  "matchDisposal disposal buys pool =
     section104Rule disposal (proceedsPerShareOf disposal) (afterBnb disposal buys pool, pool)"

text \<open>The parts of the running values.\<close>

definition remainingOf :: "matching \<Rightarrow> rat" where
  "remainingOf m = fst m"

definition buysOf :: "matching \<Rightarrow> txn list" where
  "buysOf m = fst (snd (snd m))"

definition detailsOf :: "matching \<Rightarrow> matchDetail list" where
  "detailsOf m = snd (snd (snd m))"

definition processDisposal :: "string \<Rightarrow> txn \<Rightarrow> txn list \<times> calc \<Rightarrow> txn list \<times> calc" where
  "processDisposal symbol disposal bs =
     (case bs of (buys, st) \<Rightarrow>
       (case matchDisposal disposal buys (poolOf st symbol) of
          ((remainingQty, totalCost, buys', matchDetails), pool') \<Rightarrow>
            (let proceeds = calculateProceeds disposal (t_quantity disposal);
                 proceedsPerShare = proceedsPerShareOf disposal;
                 errors' =
                   (if remainingQty > 0
                    then errors st @
                           [\<lparr> e_type = ''UNMATCHED_DISPOSAL'', e_symbol = symbol,
                              e_date = formatDateLocal (t_date disposal),
                              e_unmatchedQuantity = remainingQty \<rparr>]
                    else errors st);
                 gain = round2dp (proceeds - totalCost);
                 taxYear = getTaxYear (t_date disposal);
                 costPerShare = (if t_quantity disposal > 0
                                 then round2dp (totalCost / t_quantity disposal) else 0)
             in (buys',
                 st\<lparr> section104Pools := store symbol pool' (section104Pools st),
                    errors := errors',
                    disposals := disposals st @
                      [\<lparr> d_id = t_id disposal, d_symbol = symbol,
                         d_assetName = t_assetName disposal,
                         d_date = formatDateLocal (t_date disposal),
                         d_quantity = t_quantity disposal,
                         d_proceeds = round2dp proceeds,
                         d_proceedsPerShare = proceedsPerShare,
                         d_cost = round2dp totalCost,
                         d_costPerShare = costPerShare,
                         d_gain = gain,
                         d_gainPerShare = round2dp (gain / t_quantity disposal),
                         d_taxYear = fst taxYear,
                         d_matchDetails = matchDetails,
                         d_broker = t_broker disposal \<rparr>] \<rparr>))))"

subsection \<open>Processing a symbol\<close>

definition acquisitionOf :: "string \<Rightarrow> txn \<Rightarrow> acquisition" where
  "acquisitionOf symbol buy =
     (let cost = calculateCost buy (t_quantity buy);
          costPerShare = round2dp (cost / t_quantity buy)
      in \<lparr> a_symbol = symbol, a_date = formatDateLocal (t_date buy),
           a_quantity = t_quantity buy, a_totalCost = round2dp cost,
           a_costPerShare = costPerShare, a_broker = t_broker buy,
           a_isRSU = (t_broker buy = ''Charles Schwab'' \<and> t_pricePerUnit buy > 0),
           a_priceSource = ''csv'' \<rparr>)"

text \<open>The last loop of \<^verbatim>\<open>processSymbol\<close>: what is left of an acquisition joins the
  pool.\<close>

definition rollIn :: "txn \<Rightarrow> pool \<Rightarrow> pool" where
  "rollIn buy pool =
     (if t_remainingQty buy > 0
      then \<lparr> p_quantity = p_quantity pool + t_remainingQty buy,
             p_cost = p_cost pool + calculateCost buy (t_remainingQty buy) \<rparr>
      else pool)"

text \<open>\<^verbatim>\<open>processSymbol\<close> up to its loop over the disposals: the pool of the symbol
  exists, and the acquisitions are recorded.\<close>

definition beginSymbol :: "string \<Rightarrow> txn list \<Rightarrow> calc \<Rightarrow> calc" where
  "beginSymbol symbol transactions st =
     (let st1 = (if map_of (section104Pools st) symbol = None
                 then st\<lparr> section104Pools := section104Pools st @ [(symbol, emptyPool)] \<rparr>
                 else st);
          buys = filter (\<lambda>t. t_type t = ''BUY'') transactions
      in st1\<lparr> acquisitions := acquisitions st1 @ map (acquisitionOf symbol) buys \<rparr>)"

definition processSymbol :: "string \<Rightarrow> txn list \<Rightarrow> calc \<Rightarrow> calc" where
  "processSymbol symbol transactions st =
     (let buys = filter (\<lambda>t. t_type t = ''BUY'') transactions;
          sells = filter (\<lambda>t. t_type t = ''SELL'') transactions
      in case fold (processDisposal symbol) sells (buys, beginSymbol symbol transactions st) of
           (buys', st3) \<Rightarrow>
             st3\<lparr> section104Pools :=
                    store symbol (fold rollIn buys' (poolOf st3 symbol))
                      (section104Pools st3) \<rparr>)"

text \<open>
  The keys of an object come in this order: those that are array indices, ascending, then
  the others in the order in which they were first stored.
\<close>

definition isArrayIndex :: "string \<Rightarrow> bool" where
  "isArrayIndex k =
     (k \<noteq> [] \<and> list_all is_digit k \<and> (k = ''0'' \<or> hd k \<noteq> CHR ''0'')
      \<and> parseInt k < 4294967295)"

definition objectKeys :: "string list \<Rightarrow> string list" where
  "objectKeys stored =
     (let ks = rev (remdups (rev stored))
      in sort_key parseInt (filter isArrayIndex ks) @ filter (\<lambda>k. \<not> isArrayIndex k) ks)"

text \<open>\<^verbatim>\<open>calculate\<close>, up to the call of \<^verbatim>\<open>generateReport\<close>.\<close>

definition processAll :: "txn list \<Rightarrow> calc \<Rightarrow> calc" where
  "processAll transactions st =
     fold (\<lambda>symbol. processSymbol symbol (filter (\<lambda>t. t_symbol t = symbol) transactions))
       (objectKeys (map t_symbol transactions)) st"

definition objectEntries :: "(string \<times> 'v) list \<Rightarrow> (string \<times> 'v) list" where
  "objectEntries obj = map (\<lambda>k. (k, the (map_of obj k))) (objectKeys (map fst obj))"

subsection \<open>Pool snapshots at the start and the end of a tax year\<close>

datatype error = TypeError

datatype eventType = ACQ | DISP

text \<open>The date of an event is what \<^verbatim>\<open>parseDate\<close> makes of the recorded date string,
  \<open>None\<close> for \<^verbatim>\<open>null\<close>.\<close>

record event =
  ev_date :: "Date option"
  ev_type :: eventType
  ev_symbol :: string
  ev_quantity :: rat
  ev_cost :: rat

record poolSummary =
  ps_symbol :: string
  ps_quantity :: rat
  ps_totalCost :: rat
  ps_averageCost :: rat

definition allEvents :: "(string \<Rightarrow> Date option) \<Rightarrow> calc \<Rightarrow> event list" where
  "allEvents hostParse st =
     map (\<lambda>acq. \<lparr> ev_date = parseDate hostParse (DateString (a_date acq)), ev_type = ACQ,
                  ev_symbol = a_symbol acq, ev_quantity = a_quantity acq,
                  ev_cost = a_totalCost acq \<rparr>) (acquisitions st)
     @ map (\<lambda>disp. \<lparr> ev_date = parseDate hostParse (DateString (d_date disp)), ev_type = DISP,
                     ev_symbol = d_symbol disp, ev_quantity = d_quantity disp,
                     ev_cost = d_cost disp \<rparr>) (disposals st)"

text \<open>
  The comparator of \<^verbatim>\<open>allEvents.sort\<close> calls \<^verbatim>\<open>getTime\<close> on the dates it
  compares; on \<^verbatim>\<open>null\<close> that is a \<^verbatim>\<open>TypeError\<close>. With fewer than two events the
  comparator is not called.
\<close>

definition sortEvents :: "event list \<Rightarrow> error + event list" where
  "sortEvents events =
     (if length events \<ge> 2 \<and> (\<exists>e \<in> set events. ev_date e = None) then Inl TypeError
      else Inr (sort_key (\<lambda>e. getTime (the (ev_date e))) events))"

text \<open>\<^verbatim>\<open>a >= b\<close>, \<^verbatim>\<open>a > b\<close> and \<^verbatim>\<open>a < b\<close> where \<^verbatim>\<open>a\<close> may be \<^verbatim>\<open>null\<close>, which
  counts as 0.\<close>

definition timeOf :: "Date option \<Rightarrow> int" where
  "timeOf d = (case d of None \<Rightarrow> 0 | Some t \<Rightarrow> getTime t)"

definition applyEvent :: "event \<Rightarrow> (string \<times> pool) list \<Rightarrow> (string \<times> pool) list" where
  "applyEvent ev s104 =
     (let p = (case map_of s104 (ev_symbol ev) of None \<Rightarrow> emptyPool | Some p \<Rightarrow> p)
      in store (ev_symbol ev)
           (if ev_type ev = ACQ
            then \<lparr> p_quantity = p_quantity p + ev_quantity ev, p_cost = p_cost p + ev_cost ev \<rparr>
            else \<lparr> p_quantity = p_quantity p - ev_quantity ev, p_cost = p_cost p - ev_cost ev \<rparr>)
           s104)"

text \<open>The loop over the sorted events that stops at the first event past the date.\<close>

definition s104AtStart :: "event list \<Rightarrow> Date \<Rightarrow> (string \<times> pool) list" where
  "s104AtStart events yearStart =
     fold applyEvent (takeWhile (\<lambda>ev. \<not> timeOf (ev_date ev) \<ge> getTime yearStart) events) []"

definition s104AtEnd :: "event list \<Rightarrow> Date \<Rightarrow> (string \<times> pool) list" where
  "s104AtEnd events yearEnd =
     fold applyEvent (takeWhile (\<lambda>ev. \<not> timeOf (ev_date ev) > getTime yearEnd) events) []"

definition toArrayFormat :: "(string \<times> pool) list \<Rightarrow> poolSummary list" where
  "toArrayFormat s104 =
     sort_key ps_symbol
       (map (\<lambda>(symbol, pool).
               \<lparr> ps_symbol = symbol, ps_quantity = round2dp (p_quantity pool),
                 ps_totalCost = round2dp (p_cost pool),
                 ps_averageCost = (if p_quantity pool > 0
                                   then round2dp (p_cost pool / p_quantity pool) else 0) \<rparr>)
          (filter (\<lambda>(symbol, pool). p_quantity pool > 1 / 1000) (objectEntries s104)))"

definition calculateSection104Snapshots ::
  "(string \<Rightarrow> Date option) \<Rightarrow> calc \<Rightarrow> error + (string \<times> poolSummary list \<times> poolSummary list) list" where
  "calculateSection104Snapshots hostParse st =
     (case sortEvents (allEvents hostParse st) of
        Inl e \<Rightarrow> Inl e
      | Inr events \<Rightarrow>
          Inr (List.map_filter
                 (\<lambda>taxYear. case map_of TAX_YEARS taxYear of
                      None \<Rightarrow> None
                    | Some config \<Rightarrow>
                        Some (taxYear,
                              toArrayFormat (s104AtStart events (c_start config)),
                              toArrayFormat (s104AtEnd events (c_end config))))
                 (sort_key (\<lambda>y. y) (remdups (map d_taxYear (disposals st))))))"

subsection \<open>The report\<close>

record yearData =
  y_year :: string
  y_config :: "taxYearConfig option"
  y_disposals :: "disposal list"
  y_totalGains :: rat
  y_totalLosses :: rat

record rateSide =
  rs_gains :: rat
  rs_losses :: rat
  rs_netGain :: rat
  rs_basicRate :: rat
  rs_higherRate :: rat
  rs_disposalCount :: nat

record rateChange =
  rc_date :: string
  preOctober :: rateSide
  postOctober :: rateSide

record taxYearSummary =
  s_taxYear :: string
  s_numberOfDisposals :: nat
  s_totalProceeds :: rat
  s_totalCost :: rat
  s_totalGains :: rat
  s_totalLosses :: rat
  s_netGain :: rat
  s_annualExemption :: rat
  s_taxableGain :: rat
  s_estimatedTaxBasicRate :: rat
  s_estimatedTaxHigherRate :: rat
  s_disposals :: "disposal list"
  s_section104Start :: "poolSummary list"
  s_section104End :: "poolSummary list"
  s_rateChange :: "rateChange option"

record reportSummary =
  totalDisposals :: nat
  totalSymbolsTraded :: nat
  overallGain :: rat

text \<open>\<^verbatim>\<open>generatedAt\<close> is kept as the \<^verbatim>\<open>Date\<close> whose ISO string the report carries.\<close>

record report =
  generatedAt :: Date
  taxYears :: "taxYearSummary list"
  rep_section104Pools :: "poolSummary list"
  allDisposals :: "disposal list"
  rep_acquisitions :: "acquisition list"
  rep_errors :: "errorEntry list"
  summary :: reportSummary

text \<open>The first loop of \<^verbatim>\<open>generateReport\<close>, one disposal at a time.\<close>

definition addToYear :: "disposal \<Rightarrow> (string \<times> yearData) list \<Rightarrow> (string \<times> yearData) list" where
  "addToYear disposal byTaxYear =
     (let y = (case map_of byTaxYear (d_taxYear disposal) of
                 Some y \<Rightarrow> y
               | None \<Rightarrow> \<lparr> y_year = d_taxYear disposal,
                            y_config = map_of TAX_YEARS (d_taxYear disposal),
                            y_disposals = [], y_totalGains = 0, y_totalLosses = 0 \<rparr>);
          y1 = y\<lparr> y_disposals := y_disposals y @ [disposal] \<rparr>
      in store (d_taxYear disposal)
           (if d_gain disposal \<ge> 0
            then y1\<lparr> y_totalGains := y_totalGains y1 + d_gain disposal \<rparr>
            else y1\<lparr> y_totalLosses := y_totalLosses y1 + \<bar>d_gain disposal\<bar> \<rparr>)
           byTaxYear)"

text \<open>\<^verbatim>\<open>parseDate(disposal.date) < rateChangeDate\<close>\<close>

definition beforeChange :: "(string \<Rightarrow> Date option) \<Rightarrow> Date \<Rightarrow> disposal \<Rightarrow> bool" where
  "beforeChange hostParse changeDate disposal =
     (timeOf (parseDate hostParse (DateString (d_date disposal))) < getTime changeDate)"

text \<open>The split of a year's gains and losses at the rate change date:
  \<^verbatim>\<open>preOctGains\<close>, \<^verbatim>\<open>preOctLosses\<close>, \<^verbatim>\<open>postOctGains\<close>, \<^verbatim>\<open>postOctLosses\<close>.\<close>

definition splitStep ::
  "(string \<Rightarrow> Date option) \<Rightarrow> Date \<Rightarrow> disposal \<Rightarrow> rat \<times> rat \<times> rat \<times> rat \<Rightarrow> rat \<times> rat \<times> rat \<times> rat" where
  "splitStep hostParse rateChangeDate disposal acc =
     (case acc of (preOctGains, preOctLosses, postOctGains, postOctLosses) \<Rightarrow>
        if beforeChange hostParse rateChangeDate disposal
           then (if d_gain disposal \<ge> 0
                 then (preOctGains + d_gain disposal, preOctLosses, postOctGains, postOctLosses)
                 else (preOctGains, preOctLosses + \<bar>d_gain disposal\<bar>, postOctGains, postOctLosses))
           else (if d_gain disposal \<ge> 0
                 then (preOctGains, preOctLosses, postOctGains + d_gain disposal, postOctLosses)
                 else (preOctGains, preOctLosses, postOctGains, postOctLosses + \<bar>d_gain disposal\<bar>)))"

text \<open>\<^verbatim>\<open>config?.field\<close> on a configuration that may be missing.\<close>

definition cfgNum :: "taxYearConfig option \<Rightarrow> (taxYearConfig \<Rightarrow> rat) \<Rightarrow> rat option" where
  "cfgNum config field = map_option field config"

definition cfgOpt :: "taxYearConfig option \<Rightarrow> (taxYearConfig \<Rightarrow> 'a option) \<Rightarrow> 'a option" where
  "cfgOpt config field = (case config of None \<Rightarrow> None | Some c \<Rightarrow> field c)"

definition sumGains :: "disposal list \<Rightarrow> rat" where
  "sumGains ds = sum_list (map d_gain (filter (\<lambda>d. d_gain d \<ge> 0) ds))"

definition sumLosses :: "disposal list \<Rightarrow> rat" where
  "sumLosses ds = sum_list (map (\<lambda>d. \<bar>d_gain d\<bar>) (filter (\<lambda>d. \<not> d_gain d \<ge> 0) ds))"

text \<open>The body of the \<^verbatim>\<open>map\<close> over the years in \<^verbatim>\<open>generateReport\<close>.\<close>

definition summarize ::
  "(string \<Rightarrow> Date option) \<Rightarrow> (string \<times> poolSummary list \<times> poolSummary list) list
     \<Rightarrow> yearData \<Rightarrow> taxYearSummary" where
  "summarize hostParse taxYearSnapshots yd =
     (let netGain = round2dp (y_totalGains yd - y_totalLosses yd);
          annualExemption = num_or (cfgNum (y_config yd) c_annualExemption) 3000;
          taxableGain = max 0 (netGain - annualExemption);
          changeDate = cfgOpt (y_config yd) c_rateChangeDate;
          split = (case changeDate of
                     None \<Rightarrow> (0, 0, 0, 0)
                   | Some d \<Rightarrow> fold (splitStep hostParse d) (y_disposals yd) (0, 0, 0, 0))
      in case split of (preOctGains, preOctLosses, postOctGains, postOctLosses) \<Rightarrow>
      let basicRatePre = num_or (cfgOpt (y_config yd) c_basicRateSharesPre)
                           (num_or (cfgNum (y_config yd) c_basicRateShares) (10 / 100));
          higherRatePre = num_or (cfgOpt (y_config yd) c_higherRateSharesPre)
                            (num_or (cfgNum (y_config yd) c_higherRateShares) (20 / 100));
          basicRatePost = num_or (cfgOpt (y_config yd) c_basicRateSharesPost)
                            (num_or (cfgNum (y_config yd) c_basicRateShares) (18 / 100));
          higherRatePost = num_or (cfgOpt (y_config yd) c_higherRateSharesPost)
                             (num_or (cfgNum (y_config yd) c_higherRateShares) (24 / 100));
          estimated =
            (if changeDate \<noteq> None \<and> (preOctGains > 0 \<or> postOctGains > 0)
             then let totalGainsForAllocation = preOctGains + postOctGains;
                      preExemption =
                        (if totalGainsForAllocation > 0
                         then round2dp ((preOctGains / totalGainsForAllocation)
                                        * min annualExemption totalGainsForAllocation)
                         else 0);
                      postExemption =
                        (if totalGainsForAllocation > 0
                         then round2dp ((postOctGains / totalGainsForAllocation)
                                        * min annualExemption totalGainsForAllocation)
                         else 0);
                      taxablePreGain = max 0 (preOctGains - preOctLosses - preExemption);
                      taxablePostGain = max 0 (postOctGains - postOctLosses - postExemption)
                  in (round2dp (taxablePreGain * basicRatePre + taxablePostGain * basicRatePost),
                      round2dp (taxablePreGain * higherRatePre + taxablePostGain * higherRatePost))
             else let basicRate = num_or (cfgNum (y_config yd) c_basicRateShares) (10 / 100);
                      higherRate = num_or (cfgNum (y_config yd) c_higherRateShares) (20 / 100)
                  in (round2dp (taxableGain * basicRate), round2dp (taxableGain * higherRate)))
      in \<lparr> s_taxYear = y_year yd,
           s_numberOfDisposals = length (y_disposals yd),
           s_totalProceeds = round2dp (sum_list (map d_proceeds (y_disposals yd))),
           s_totalCost = round2dp (sum_list (map d_cost (y_disposals yd))),
           s_totalGains = round2dp (y_totalGains yd),
           s_totalLosses = round2dp (y_totalLosses yd),
           s_netGain = round2dp netGain,
           s_annualExemption = annualExemption,
           s_taxableGain = round2dp taxableGain,
           s_estimatedTaxBasicRate = fst estimated,
           s_estimatedTaxHigherRate = snd estimated,
           s_disposals = y_disposals yd,
           s_section104Start =
             (case map_of taxYearSnapshots (y_year yd) of Some sn \<Rightarrow> fst sn | None \<Rightarrow> []),
           s_section104End =
             (case map_of taxYearSnapshots (y_year yd) of Some sn \<Rightarrow> snd sn | None \<Rightarrow> []),
           s_rateChange =
             (case changeDate of
                None \<Rightarrow> None
              | Some d \<Rightarrow> Some
                  \<lparr> rc_date = ''2024-10-30'',
                    preOctober =
                      \<lparr> rs_gains = round2dp preOctGains, rs_losses = round2dp preOctLosses,
                        rs_netGain = round2dp (preOctGains - preOctLosses),
                        rs_basicRate = basicRatePre, rs_higherRate = higherRatePre,
                        rs_disposalCount =
                          length (filter (beforeChange hostParse d) (y_disposals yd)) \<rparr>,
                    postOctober =
                      \<lparr> rs_gains = round2dp postOctGains, rs_losses = round2dp postOctLosses,
                        rs_netGain = round2dp (postOctGains - postOctLosses),
                        rs_basicRate = basicRatePost, rs_higherRate = higherRatePost,
                        rs_disposalCount =
                          length (filter (\<lambda>x. timeOf (parseDate hostParse (DateString (d_date x)))
                                                \<ge> getTime d) (y_disposals yd)) \<rparr> \<rparr>) \<rparr>)"

definition section104Summary :: "(string \<times> pool) list \<Rightarrow> poolSummary list" where
  "section104Summary pools =
     map (\<lambda>(symbol, pool).
            \<lparr> ps_symbol = symbol, ps_quantity = round2dp (p_quantity pool),
              ps_totalCost = round2dp (p_cost pool),
              ps_averageCost = round2dp (p_cost pool / p_quantity pool) \<rparr>)
       (filter (\<lambda>(symbol, pool). p_quantity pool > 0) (objectEntries pools))"

text \<open>The years are sorted by their label, descending; the sort is stable.\<close>

definition taxYearSummaries ::
  "(string \<Rightarrow> Date option) \<Rightarrow> (string \<times> poolSummary list \<times> poolSummary list) list
     \<Rightarrow> disposal list \<Rightarrow> taxYearSummary list" where
  "taxYearSummaries hostParse taxYearSnapshots ds =
     rev (sort_key s_taxYear
            (rev (map (summarize hostParse taxYearSnapshots)
                    (map snd (objectEntries (fold addToYear ds []))))))"

text \<open>\<open>now\<close> is the time at which the report is generated.\<close>

definition generateReport :: "(string \<Rightarrow> Date option) \<Rightarrow> Date \<Rightarrow> calc \<Rightarrow> error + report" where
  "generateReport hostParse now st =
     (case calculateSection104Snapshots hostParse st of
        Inl e \<Rightarrow> Inl e
      | Inr taxYearSnapshots \<Rightarrow> Inr
          \<lparr> generatedAt = now,
            taxYears = taxYearSummaries hostParse taxYearSnapshots (disposals st),
            rep_section104Pools = section104Summary (section104Pools st),
            allDisposals = disposals st,
            rep_acquisitions = acquisitions st,
            rep_errors = errors st,
            summary =
              \<lparr> totalDisposals = length (disposals st),
                totalSymbolsTraded = length (remdups (map d_symbol (disposals st))),
                overallGain = round2dp (sum_list (map d_gain (disposals st))) \<rparr> \<rparr>)"

text \<open>
  \<^verbatim>\<open>calculateCGT\<close>: a new calculator, \<^verbatim>\<open>calculate\<close> on the raw transactions.
  \<open>clock\<close> gives what \<^verbatim>\<open>Date.now()\<close> reads while each record is normalized
  and \<open>now\<close> the time of the report.
\<close>

definition calculateCGT ::
  "(string \<Rightarrow> Date option) \<Rightarrow> (nat \<Rightarrow> int) \<Rightarrow> Date \<Rightarrow> raw_txn list \<Rightarrow> error + report" where
  "calculateCGT hostParse clock now rawTransactions =
     generateReport hostParse now
       (processAll (normalizeTransactions hostParse clock rawTransactions) newCalculator)"

section \<open>The matcher in floating-point arithmetic\<close>

text \<open>
  The numbers of the engine are IEEE 754 doubles: every \<^verbatim>\<open>+\<close>, \<^verbatim>\<open>-\<close>, \<^verbatim>\<open>*\<close> and
  \<^verbatim>\<open>/\<close> yields the double nearest to the exact result. The definitions of this section
  follow \<^verbatim>\<open>processSymbol\<close> and \<^verbatim>\<open>processDisposal\<close> operation by operation, with the
  rounding \<open>rnd\<close> applied to the result of every arithmetic operation; comparisons,
  \<^verbatim>\<open>Math.min\<close> and \<^verbatim>\<open>Math.round\<close> are exact. \<open>binary64\<close> is the rounding of the
  doubles: to 53 significant bits, to nearest, ties to even (overflow to infinity and
  subnormal numbers are left out). Reading \<^verbatim>\<open>this.section104Pools[symbol]\<close> gives
  \<^verbatim>\<open>undefined\<close> when the symbol has no pool, and reading a property of that throws a
  \<^verbatim>\<open>TypeError\<close>.
\<close>

type_synonym rounding = "rat \<Rightarrow> rat"

function bitLength :: "int \<Rightarrow> int" where
  "bitLength n = (if n \<le> 0 then 0 else 1 + bitLength (n div 2))"
  by auto
termination by (relation "measure nat") auto

declare bitLength.simps [simp del]

function twoToThe :: "int \<Rightarrow> int" where
  "twoToThe k = (if k \<le> 0 then 1 else 2 * twoToThe (k - 1))"
  by auto
termination by (relation "measure nat") auto

declare twoToThe.simps [simp del]

text \<open>\<open>x\<close> times 2 to the power \<open>k\<close>.\<close>

definition scaleBy :: "rat \<Rightarrow> int \<Rightarrow> rat" where
  "scaleBy x k = (if 0 \<le> k then x * of_int (twoToThe k) else x / of_int (twoToThe (- k)))"

text \<open>For a positive \<open>x\<close>, the exponent \<open>e\<close> with \<open>x\<close> from 2 to the \<open>e\<close> up to 2 to the
  \<open>e + 1\<close>.\<close>

definition exponentOf :: "rat \<Rightarrow> int" where
  "exponentOf x =
     (case quotient_of x of (p, q) \<Rightarrow>
        let e = bitLength p - bitLength q
        in if scaleBy 1 e \<le> x then e else e - 1)"

definition roundHalfEven :: "rat \<Rightarrow> int" where
  "roundHalfEven y =
     (let n = \<lfloor>y\<rfloor>; f = y - of_int n
      in if f < 1 / 2 then n else if 1 / 2 < f then n + 1
         else if n mod 2 = 0 then n else n + 1)"

definition binary64 :: rounding where
  "binary64 x =
     (if x = 0 then 0
      else let e = exponentOf \<bar>x\<bar>
           in sgn x * scaleBy (of_int (roundHalfEven (scaleBy \<bar>x\<bar> (52 - e)))) (e - 52))"

definition round2dpFP :: "rounding \<Rightarrow> rat \<Rightarrow> rat" where
  "round2dpFP rnd v = rnd (of_int (Math_round (rnd (v * 100))) / 100)"

definition calculateCostFP :: "rounding \<Rightarrow> txn \<Rightarrow> rat \<Rightarrow> rat" where
  "calculateCostFP rnd transaction quantity =
     (let proportion = rnd (quantity / t_quantity transaction);
          baseCost = (case t_totalAmount transaction of
                        Some totalAmount \<Rightarrow> rnd (totalAmount * proportion)
                      | None \<Rightarrow> rnd (quantity * t_pricePerUnit transaction));
          fees = rnd (t_fees transaction * proportion)
      in round2dpFP rnd (rnd (rnd (baseCost + fees) / t_exchangeRate transaction)))"

definition calculateProceedsFP :: "rounding \<Rightarrow> txn \<Rightarrow> rat \<Rightarrow> rat" where
  "calculateProceedsFP rnd transaction quantity =
     (let proportion = rnd (quantity / t_quantity transaction);
          baseProceeds = (case t_totalAmount transaction of
                            Some totalAmount \<Rightarrow> rnd (totalAmount * proportion)
                          | None \<Rightarrow> rnd (quantity * t_pricePerUnit transaction));
          fees = rnd (t_fees transaction * proportion)
      in round2dpFP rnd (rnd (rnd (baseProceeds - fees) / t_exchangeRate transaction)))"

fun matchBuysFP ::
  "rounding \<Rightarrow> (txn \<Rightarrow> rat \<Rightarrow> rat \<Rightarrow> matchDetail) \<Rightarrow> nat list \<Rightarrow> matching \<Rightarrow> matching" where
  "matchBuysFP rnd detail [] m = m"
| "matchBuysFP rnd detail (i # rest) (remainingQty, totalCost, buys, matchDetails) =
     (if remainingQty \<le> 0 then (remainingQty, totalCost, buys, matchDetails)
      else let buy = buys ! i;
               matchQty = min remainingQty (t_remainingQty buy);
               matchCost = calculateCostFP rnd buy matchQty
           in matchBuysFP rnd detail rest
                (rnd (remainingQty - matchQty), rnd (totalCost + matchCost),
                 buys[i := buy\<lparr>t_remainingQty := rnd (t_remainingQty buy - matchQty)\<rparr>],
                 matchDetails @ [detail buy matchQty matchCost]))"

definition sameDayDetailFP :: "rounding \<Rightarrow> rat \<Rightarrow> txn \<Rightarrow> rat \<Rightarrow> rat \<Rightarrow> matchDetail" where
  "sameDayDetailFP rnd proceedsPerShare buy matchQty matchCost =
     (let costPerShare = round2dpFP rnd (rnd (matchCost / matchQty))
      in \<lparr> md_rule = SAME_DAY, md_quantity = matchQty, md_cost = matchCost,
           md_costPerShare = costPerShare, md_proceedsPerShare = proceedsPerShare,
           md_gainPerShare = round2dpFP rnd (rnd (proceedsPerShare - costPerShare)),
           md_info = SameDayInfo (formatDateLocal (t_date buy)) (t_broker buy)
                       (t_broker buy = ''Charles Schwab'') \<rparr>)"

definition bnbDetailFP ::
  "rounding \<Rightarrow> rat \<Rightarrow> Date \<Rightarrow> pool \<Rightarrow> txn \<Rightarrow> rat \<Rightarrow> rat \<Rightarrow> matchDetail" where
  "bnbDetailFP rnd proceedsPerShare disposalDate pool buy matchQty matchCost =
     (let costPerShare = round2dpFP rnd (rnd (matchCost / matchQty));
          daysDiff = getDaysDifference disposalDate (t_date buy);
          s104AvgCost = (if p_quantity pool > 0
                         then round2dpFP rnd (rnd (p_cost pool / p_quantity pool)) else 0);
          originalCurrency = (if t_currency buy = [] then ''GBP'' else t_currency buy);
          originalCostPerShare = round2dpFP rnd (t_pricePerUnit buy);
          exchangeRate = (if t_exchangeRate buy = 0 then 1 else t_exchangeRate buy)
      in \<lparr> md_rule = BED_AND_BREAKFAST, md_quantity = matchQty, md_cost = matchCost,
           md_costPerShare = costPerShare, md_proceedsPerShare = proceedsPerShare,
           md_gainPerShare = round2dpFP rnd (rnd (proceedsPerShare - costPerShare)),
           md_info = BnbInfo (formatDateLocal (t_date buy)) daysDiff (t_broker buy)
                       (t_broker buy = ''Charles Schwab'')
                       originalCurrency originalCostPerShare exchangeRate
                       \<lparr> s104CostPerShareWouldBe = s104AvgCost,
                         actualCostPerShare = costPerShare,
                         costDifference = round2dpFP rnd (rnd (costPerShare - s104AvgCost)),
                         explanation =
                           (if costPerShare > s104AvgCost
                            then IncreasedCostBasis
                                   (round2dpFP rnd (rnd (costPerShare - s104AvgCost)))
                            else DecreasedCostBasis
                                   (round2dpFP rnd (rnd (s104AvgCost - costPerShare)))) \<rparr> \<rparr>)"

definition sameDayRuleFP :: "rounding \<Rightarrow> txn \<Rightarrow> rat \<Rightarrow> matching \<Rightarrow> matching" where
  "sameDayRuleFP rnd disposal proceedsPerShare m =
     (case m of (remainingQty, totalCost, buys, matchDetails) \<Rightarrow>
        matchBuysFP rnd (sameDayDetailFP rnd proceedsPerShare) (sameDayBuys disposal buys) m)"

definition bnbRuleFP :: "rounding \<Rightarrow> txn \<Rightarrow> rat \<Rightarrow> pool \<Rightarrow> matching \<Rightarrow> matching" where
  "bnbRuleFP rnd disposal proceedsPerShare pool m =
     (case m of (remainingQty, totalCost, buys, matchDetails) \<Rightarrow>
        if remainingQty > 0
        then matchBuysFP rnd (bnbDetailFP rnd proceedsPerShare (t_date disposal) pool)
               (bnbBuys disposal buys) m
        else m)"

fun rollEarlierFP :: "rounding \<Rightarrow> nat list \<Rightarrow> txn list \<times> pool \<Rightarrow> txn list \<times> pool" where
  "rollEarlierFP rnd [] bp = bp"
| "rollEarlierFP rnd (i # rest) (buys, pool) =
     (let buy = buys ! i;
          cost = calculateCostFP rnd buy (t_remainingQty buy)
      in rollEarlierFP rnd rest
           (buys[i := buy\<lparr>t_remainingQty := 0\<rparr>],
            \<lparr> p_quantity = rnd (p_quantity pool + t_remainingQty buy),
              p_cost = rnd (p_cost pool + cost) \<rparr>))"

definition drawFromPoolFP :: "rounding \<Rightarrow> rat \<Rightarrow> matching \<times> pool \<Rightarrow> matching \<times> pool" where
  "drawFromPoolFP rnd proceedsPerShare mp =
     (case mp of ((remainingQty, totalCost, buys, matchDetails), pool) \<Rightarrow>
        if p_quantity pool > 0
        then let matchQty = min remainingQty (p_quantity pool);
                 avgCost = rnd (p_cost pool / p_quantity pool);
                 matchCost = round2dpFP rnd (rnd (matchQty * avgCost));
                 costPerShare = round2dpFP rnd avgCost;
                 pool' = \<lparr> p_quantity = rnd (p_quantity pool - matchQty),
                           p_cost = rnd (p_cost pool - matchCost) \<rparr>
             in ((rnd (remainingQty - matchQty), rnd (totalCost + matchCost), buys,
                  matchDetails @
                    [\<lparr> md_rule = SECTION_104, md_quantity = matchQty, md_cost = matchCost,
                       md_costPerShare = costPerShare, md_proceedsPerShare = proceedsPerShare,
                       md_gainPerShare = round2dpFP rnd (rnd (proceedsPerShare - costPerShare)),
                       md_info = Section104Info (round2dpFP rnd avgCost)
                                   (round2dpFP rnd (rnd (p_quantity pool' + matchQty)))
                                   (round2dpFP rnd (p_quantity pool')) \<rparr>]),
                 pool')
        else mp)"

definition section104RuleFP ::
  "rounding \<Rightarrow> txn \<Rightarrow> rat \<Rightarrow> matching \<times> pool \<Rightarrow> matching \<times> pool" where
  "section104RuleFP rnd disposal proceedsPerShare mp =
     (case mp of ((remainingQty, totalCost, buys, matchDetails), pool) \<Rightarrow>
        if remainingQty > 0
        then (case rollEarlierFP rnd (earlierBuys disposal buys) (buys, pool) of
                (buys', pool') \<Rightarrow>
                  drawFromPoolFP rnd proceedsPerShare
                    ((remainingQty, totalCost, buys', matchDetails), pool'))
        else mp)"

definition proceedsPerShareOfFP :: "rounding \<Rightarrow> txn \<Rightarrow> rat" where
  "proceedsPerShareOfFP rnd disposal =
     round2dpFP rnd
       (rnd (calculateProceedsFP rnd disposal (t_quantity disposal) / t_quantity disposal))"

definition afterSameDayFP :: "rounding \<Rightarrow> txn \<Rightarrow> txn list \<Rightarrow> matching" where
  "afterSameDayFP rnd disposal buys =
     sameDayRuleFP rnd disposal (proceedsPerShareOfFP rnd disposal)
       (t_quantity disposal, 0, buys, [])"

definition afterBnbFP :: "rounding \<Rightarrow> txn \<Rightarrow> txn list \<Rightarrow> pool \<Rightarrow> matching" where
  "afterBnbFP rnd disposal buys pool =
     bnbRuleFP rnd disposal (proceedsPerShareOfFP rnd disposal) pool
       (afterSameDayFP rnd disposal buys)"

definition matchDisposalFP :: "rounding \<Rightarrow> txn \<Rightarrow> txn list \<Rightarrow> pool \<Rightarrow> matching \<times> pool" where
  "matchDisposalFP rnd disposal buys pool =
     section104RuleFP rnd disposal (proceedsPerShareOfFP rnd disposal)
       (afterBnbFP rnd disposal buys pool, pool)"

text \<open>The end of \<^verbatim>\<open>processDisposal\<close>: the error entry for what is left unmatched, and
  the disposal.\<close>

fun recordDisposal :: "rounding \<Rightarrow> string \<Rightarrow> txn \<Rightarrow> matching \<Rightarrow> calc \<Rightarrow> calc" where
  "recordDisposal rnd symbol disposal (remainingQty, totalCost, buys', matchDetails) st =
        (let proceeds = calculateProceedsFP rnd disposal (t_quantity disposal);
             proceedsPerShare = proceedsPerShareOfFP rnd disposal;
             errors' =
               (if remainingQty > 0
                then errors st @
                       [\<lparr> e_type = ''UNMATCHED_DISPOSAL'', e_symbol = symbol,
                          e_date = formatDateLocal (t_date disposal),
                          e_unmatchedQuantity = remainingQty \<rparr>]
                else errors st);
             gain = round2dpFP rnd (rnd (proceeds - totalCost));
             taxYear = getTaxYear (t_date disposal);
             costPerShare = (if t_quantity disposal > 0
                             then round2dpFP rnd (rnd (totalCost / t_quantity disposal)) else 0)
         in st\<lparr> errors := errors',
                disposals := disposals st @
                  [\<lparr> d_id = t_id disposal, d_symbol = symbol,
                     d_assetName = t_assetName disposal,
                     d_date = formatDateLocal (t_date disposal),
                     d_quantity = t_quantity disposal,
                     d_proceeds = round2dpFP rnd proceeds,
                     d_proceedsPerShare = proceedsPerShare,
                     d_cost = round2dpFP rnd totalCost,
                     d_costPerShare = costPerShare,
                     d_gain = gain,
                     d_gainPerShare = round2dpFP rnd (rnd (gain / t_quantity disposal)),
                     d_taxYear = fst taxYear,
                     d_matchDetails = matchDetails,
                     d_broker = t_broker disposal \<rparr>] \<rparr>)"

declare recordDisposal.simps [simp del]

text \<open>
  \<^verbatim>\<open>processDisposal\<close>. The pool of the symbol is first read when quantity is left after
  the same-day rule: in the bed-and-breakfast loop if that rule has a candidate, and in any
  case by rule 3, which is reached with the same quantity left when it has none. A symbol
  without a pool makes that read throw.
\<close>

definition processDisposalFP ::
  "rounding \<Rightarrow> string \<Rightarrow> txn \<Rightarrow> txn list \<times> calc \<Rightarrow> error + (txn list \<times> calc)" where
  "processDisposalFP rnd symbol disposal bs =
     (case bs of (buys, st) \<Rightarrow>
        (case map_of (section104Pools st) symbol of
           None \<Rightarrow>
             (let m = afterSameDayFP rnd disposal buys
              in if remainingOf m > 0 then Inl TypeError
                 else Inr (buysOf m, recordDisposal rnd symbol disposal m st))
         | Some pool \<Rightarrow>
             (case matchDisposalFP rnd disposal buys pool of
                (m, pool') \<Rightarrow>
                  Inr (buysOf m,
                       recordDisposal rnd symbol disposal m
                         (st\<lparr> section104Pools := store symbol pool' (section104Pools st) \<rparr>)))))"

definition acquisitionOfFP :: "rounding \<Rightarrow> string \<Rightarrow> txn \<Rightarrow> acquisition" where
  "acquisitionOfFP rnd symbol buy =
     (let cost = calculateCostFP rnd buy (t_quantity buy);
          costPerShare = round2dpFP rnd (rnd (cost / t_quantity buy))
      in \<lparr> a_symbol = symbol, a_date = formatDateLocal (t_date buy),
           a_quantity = t_quantity buy, a_totalCost = round2dpFP rnd cost,
           a_costPerShare = costPerShare, a_broker = t_broker buy,
           a_isRSU = (t_broker buy = ''Charles Schwab'' \<and> t_pricePerUnit buy > 0),
           a_priceSource = ''csv'' \<rparr>)"

definition rollInFP :: "rounding \<Rightarrow> txn \<Rightarrow> pool \<Rightarrow> pool" where
  "rollInFP rnd buy pool =
     (if t_remainingQty buy > 0
      then \<lparr> p_quantity = rnd (p_quantity pool + t_remainingQty buy),
             p_cost = rnd (p_cost pool + calculateCostFP rnd buy (t_remainingQty buy)) \<rparr>
      else pool)"

definition beginSymbolFP :: "rounding \<Rightarrow> string \<Rightarrow> txn list \<Rightarrow> calc \<Rightarrow> calc" where
  "beginSymbolFP rnd symbol transactions st =
     (let st1 = (if map_of (section104Pools st) symbol = None
                 then st\<lparr> section104Pools := section104Pools st @ [(symbol, emptyPool)] \<rparr>
                 else st);
          buys = filter (\<lambda>t. t_type t = ''BUY'') transactions
      in st1\<lparr> acquisitions := acquisitions st1 @ map (acquisitionOfFP rnd symbol) buys \<rparr>)"

text \<open>The loop of \<^verbatim>\<open>processSymbol\<close> over the disposals, which an exception leaves.\<close>

fun disposalsLoop ::
  "rounding \<Rightarrow> string \<Rightarrow> txn list \<Rightarrow> txn list \<times> calc \<Rightarrow> error + (txn list \<times> calc)" where
  "disposalsLoop rnd symbol [] bs = Inr bs"
| "disposalsLoop rnd symbol (disposal # rest) bs =
     (case processDisposalFP rnd symbol disposal bs of
        Inl e \<Rightarrow> Inl e
      | Inr bs' \<Rightarrow> disposalsLoop rnd symbol rest bs')"

definition processSymbolFP :: "rounding \<Rightarrow> string \<Rightarrow> txn list \<Rightarrow> calc \<Rightarrow> error + calc" where
  "processSymbolFP rnd symbol transactions st =
     (let buys = filter (\<lambda>t. t_type t = ''BUY'') transactions;
          sells = filter (\<lambda>t. t_type t = ''SELL'') transactions
      in case disposalsLoop rnd symbol sells (buys, beginSymbolFP rnd symbol transactions st) of
           Inl e \<Rightarrow> Inl e
         | Inr (buys', st3) \<Rightarrow>
             Inr (st3\<lparr> section104Pools :=
                    store symbol (fold (rollInFP rnd) buys' (poolOf st3 symbol))
                      (section104Pools st3) \<rparr>))"

section \<open>Conditions used in the properties\<close>

text \<open>Acquisitions of which none has a negative quantity left, and a calculator of which
  no pool holds a negative quantity.\<close>

definition remainingOk :: "txn list \<Rightarrow> bool" where
  "remainingOk buys = list_all (\<lambda>b. 0 \<le> t_remainingQty b) buys"

definition poolsOk :: "calc \<Rightarrow> bool" where
  "poolsOk st = list_all (\<lambda>sp. 0 \<le> p_quantity (snd sp)) (section104Pools st)"

text \<open>The acquisitions and the disposals of a symbol, and the running values of
  \<^verbatim>\<open>processSymbol\<close> after the first \<open>k\<close> disposals of its loop.\<close>

definition buyTxns :: "txn list \<Rightarrow> txn list" where
  "buyTxns transactions = filter (\<lambda>t. t_type t = ''BUY'') transactions"

definition sellTxns :: "txn list \<Rightarrow> txn list" where
  "sellTxns transactions = filter (\<lambda>t. t_type t = ''SELL'') transactions"

definition afterDisposals :: "string \<Rightarrow> txn list \<Rightarrow> calc \<Rightarrow> nat \<Rightarrow> txn list \<times> calc" where
  "afterDisposals symbol transactions st k =
     fold (processDisposal symbol) (take k (sellTxns transactions))
       (buyTxns transactions, beginSymbol symbol transactions st)"

text \<open>The part of the annual exempt amount that goes to a side of the rate change with
  the gains \<open>g\<close>, when both sides together have the gains \<open>allGains\<close>: its share of
  the amount, which counts up to \<open>allGains\<close> only.\<close>

definition exemptionShare :: "rat \<Rightarrow> rat \<Rightarrow> rat \<Rightarrow> rat" where
  "exemptionShare g allGains exemption =
     (if allGains > 0 then round2dp (g / allGains * min exemption allGains) else 0)"

text \<open>The running values of \<^verbatim>\<open>processSymbol\<close> in floating-point arithmetic after the
  first \<open>k\<close> disposals of its loop.\<close>

definition afterDisposalsFP ::
  "rounding \<Rightarrow> string \<Rightarrow> txn list \<Rightarrow> calc \<Rightarrow> nat \<Rightarrow> error + (txn list \<times> calc)" where
  "afterDisposalsFP rnd symbol transactions st k =
     disposalsLoop rnd symbol (take k (sellTxns transactions))
       (buyTxns transactions, beginSymbolFP rnd symbol transactions st)"

text \<open>A quantity run down by the quantities of the match details, and the costs of the
  match details added up, as \<^verbatim>\<open>remainingQty -= matchQty\<close> and
  \<^verbatim>\<open>totalCost += matchCost\<close> do it: one rounded operation after the other.\<close>

fun runDown :: "rounding \<Rightarrow> rat \<Rightarrow> rat list \<Rightarrow> rat" where
  "runDown rnd r [] = r"
| "runDown rnd r (q # qs) = runDown rnd (rnd (r - q)) qs"

fun runUp :: "rounding \<Rightarrow> rat \<Rightarrow> rat list \<Rightarrow> rat" where
  "runUp rnd a [] = a"
| "runUp rnd a (c # cs) = runUp rnd (rnd (a + c)) cs"

text \<open>The tests of the three rules: an acquisition on the calendar day of the disposal;
  one from 1 to 30 days after it, the days being the elapsed time in units of 24 hours,
  rounded to the nearest whole number; one at an earlier time than the disposal.\<close>

definition onSameDay :: "txn \<Rightarrow> txn \<Rightarrow> bool" where
  "onSameDay disposal b = isSameDay (t_date b) (t_date disposal)"

definition within30 :: "txn \<Rightarrow> txn \<Rightarrow> bool" where
  "within30 disposal b = inWindow (getDaysDifference (t_date disposal) (t_date b))"

definition isEarlier :: "txn \<Rightarrow> txn \<Rightarrow> bool" where
  "isEarlier disposal b = (getTime (t_date b) < getTime (t_date disposal))"

text \<open>The calendar day of a time, counted from 1 January 1970, and a time that is the
  start of its day, as the time of every date given without a time of day is.\<close>

definition calendarDay :: "Date \<Rightarrow> int" where
  "calendarDay d = getTime d div msPerDay"

definition atMidnight :: "Date \<Rightarrow> bool" where
  "atMidnight d = (getTime d mod msPerDay = 0)"

text \<open>A time of day on a calendar date.\<close>

definition dateAt :: "int \<Rightarrow> int \<Rightarrow> int \<Rightarrow> int \<Rightarrow> Date" where
  "dateAt y m d h = Date (getTime (newDate y m d) + h * 3600000)"

subsection \<open>Sample inputs\<close>

text \<open>A raw trade with a date string, a quantity and a price per unit, in GBP, and nothing
  else filled in; a host that parses no date string of its own; a clock standing at 0.\<close>

definition trade :: "string \<Rightarrow> string \<Rightarrow> string \<Rightarrow> rat \<Rightarrow> rat \<Rightarrow> raw_txn" where
  "trade ty sy d q price =
     \<lparr> r_date = DateString d, r_type = ty, r_symbol = sy, r_assetName = None,
       r_quantity = Some q, r_pricePerUnit = Some price, r_totalAmount = None,
       r_fees = None, r_currency = None, r_exchangeRate = None, r_broker = None \<rparr>"

definition noHostParse :: "string \<Rightarrow> Date option" where
  "noHostParse s = None"

definition clock0 :: "nat \<Rightarrow> int" where
  "clock0 i = 0"

text \<open>A normalized transaction in XYZ, in GBP, with a price per unit and no fees.\<close>

definition sampleTxn :: "string \<Rightarrow> Date \<Rightarrow> rat \<Rightarrow> rat \<Rightarrow> txn" where
  "sampleTxn ty d q price =
     \<lparr> t_id = ''txn'', t_date = d, t_type = ty, t_symbol = ''XYZ'', t_assetName = ''XYZ'',
       t_quantity = q, t_pricePerUnit = price, t_totalAmount = None, t_fees = 0,
       t_currency = ''GBP'', t_exchangeRate = 1, t_broker = ''Unknown'', t_used = False,
       t_remainingQty = q \<rparr>"

text \<open>A calculator in which XYZ has an empty pool, as \<^verbatim>\<open>processSymbol\<close> leaves a new
  calculator before its first disposal.\<close>

definition withPool :: calc where
  "withPool = newCalculator\<lparr> section104Pools := [(''XYZ'', emptyPool)] \<rparr>"


section \<open>Properties\<close>

subsection \<open>Normalization\<close>

lemma normalizeTransactions_set:
  "t \<in> set (normalizeTransactions hostParse now transactions) \<longleftrightarrow>
     (\<exists>it \<in> set (enumerate 0 transactions).
        normalizeOne hostParse now it = Some t \<and> t_quantity t > 0)"
proof -
  have "t \<in> set (normalizeTransactions hostParse now transactions) \<longleftrightarrow>
     (\<exists>x \<in> set (map (normalizeOne hostParse now) (enumerate 0 transactions)).
        kept x \<and> the x = t)"
    unfolding normalizeTransactions_def by auto
  also have "\<dots> \<longleftrightarrow> (\<exists>it \<in> set (enumerate 0 transactions).
        normalizeOne hostParse now it = Some t \<and> t_quantity t > 0)"
    unfolding kept_def by (force split: option.splits)
  finally show ?thesis .
qed

text \<open>
  Claim C10. A record whose \<^verbatim>\<open>exchangeRate\<close> is missing, non-numeric or zero is
  normalized to the rate 1, and no transaction that leaves the normalizer has the rate 0:
  the divisions by \<^verbatim>\<open>exchangeRate\<close> in \<^verbatim>\<open>calculateCost\<close> and
  \<^verbatim>\<open>calculateProceeds\<close> never divide by zero.
\<close>

theorem exchangeRate_never_zero:
  "(\<forall>t \<in> set (normalizeTransactions hostParse now transactions). t_exchangeRate t \<noteq> 0)
   \<and> (\<forall>index raw t. normalizeOne hostParse now (index, raw) = Some t
          \<and> (r_exchangeRate raw = None \<or> r_exchangeRate raw = Some 0)
        \<longrightarrow> t_exchangeRate t = 1)"
proof -
  have rate: "t_exchangeRate t = num_or (r_exchangeRate raw) 1"
    if "normalizeOne hostParse now (index, raw) = Some t" for index raw t
    using that by (auto simp: normalizeOne_def split: option.splits)
  have nz: "num_or x 1 \<noteq> 0" for x
    by (simp add: num_or_def split: option.splits)
  show ?thesis
  proof (intro conjI ballI allI impI)
    fix t assume "t \<in> set (normalizeTransactions hostParse now transactions)"
    then obtain it where "normalizeOne hostParse now it = Some t"
      unfolding normalizeTransactions_set by blast
    then show "t_exchangeRate t \<noteq> 0"
      using rate [of "fst it" "snd it" t] nz by simp
  next
    fix index raw t
    assume "normalizeOne hostParse now (index, raw) = Some t
          \<and> (r_exchangeRate raw = None \<or> r_exchangeRate raw = Some 0)"
    then show "t_exchangeRate t = 1"
      using rate [of index raw t] by (auto simp: num_or_def)
  qed
qed

text \<open>A purchase entered with the rate 0 leaves the normalizer with the rate 1.\<close>

theorem exchangeRate_never_zero_witness:
  "(\<exists>t. normalizeTransactions noHostParse clock0
         [trade ''buy'' ''xyz'' ''2024-05-01'' 100 10\<lparr>r_exchangeRate := Some 0\<rparr>] = [t]
       \<and> normalizeOne noHostParse clock0
            (0, trade ''buy'' ''xyz'' ''2024-05-01'' 100 10\<lparr>r_exchangeRate := Some 0\<rparr>) = Some t
       \<and> t_exchangeRate t = 1 \<and> t_exchangeRate t \<noteq> 0)"
proof -
  define raw where "raw = trade ''buy'' ''xyz'' ''2024-05-01'' 100 10\<lparr>r_exchangeRate := Some 0\<rparr>"
  obtain t where t: "normalizeOne noHostParse clock0 (0, raw) = Some t"
    unfolding raw_def by (simp add: normalizeOne_def parseDate_def parseDateStr_def trade_def
         trim_def is_space_def isoMatch_def is_digit_def)
  have q: "t_quantity t = 100"
    using t unfolding raw_def by (auto simp add: normalizeOne_def trade_def num_or_def split: option.splits)
  have r: "r_exchangeRate raw = Some 0" by (simp add: raw_def)
  have l: "normalizeTransactions noHostParse clock0 [raw] = [t]"
    using t q by (simp add: normalizeTransactions_def kept_def enumerate_eq_zip)
  from exchangeRate_never_zero [of noHostParse clock0 "[raw]"] t r l
  have "t_exchangeRate t = 1 \<and> t_exchangeRate t \<noteq> 0" by auto
  with t l show ?thesis unfolding raw_def by blast
qed

subsection \<open>Rounding to two decimal places\<close>

text \<open>A value is in whole pence when rounding leaves it as it is.\<close>

lemma Math_round_of_int [simp]: "Math_round (of_int n) = n"
  unfolding Math_round_def by (rule floor_unique) simp_all

lemma round2dp_of_int: "round2dp (of_int n / 100) = of_int n / 100"
  by (simp add: round2dp_def)

lemma round2dp_idem [simp]: "round2dp (round2dp x) = round2dp x"
  unfolding round2dp_def by simp

lemma is2dp_iff: "round2dp x = x \<longleftrightarrow> (\<exists>n::int. x = of_int n / 100)"
proof
  assume "round2dp x = x"
  then have "x = of_int (Math_round (x * 100)) / 100" by (simp add: round2dp_def)
  then show "\<exists>n::int. x = of_int n / 100" ..
next
  assume "\<exists>n::int. x = of_int n / 100"
  then obtain n :: int where "x = of_int n / 100" ..
  then show "round2dp x = x" by (simp only: round2dp_of_int)
qed

lemma is2dp_add: "round2dp a = a \<Longrightarrow> round2dp b = b \<Longrightarrow> round2dp (a + b) = a + b"
proof -
  assume "round2dp a = a" "round2dp b = b"
  then obtain m n :: int where "a = of_int m / 100" "b = of_int n / 100"
    unfolding is2dp_iff by blast
  then have "a + b = of_int (m + n) / 100" by (simp add: add_divide_distrib)
  then show ?thesis unfolding is2dp_iff by blast
qed

lemma is2dp_diff: "round2dp a = a \<Longrightarrow> round2dp b = b \<Longrightarrow> round2dp (a - b) = a - b"
proof -
  assume "round2dp a = a" "round2dp b = b"
  then obtain m n :: int where "a = of_int m / 100" "b = of_int n / 100"
    unfolding is2dp_iff by blast
  then have "a - b = of_int (m - n) / 100" by (simp add: diff_divide_distrib)
  then show ?thesis unfolding is2dp_iff by blast
qed

lemma is2dp_zero [simp]: "round2dp 0 = 0"
  using round2dp_of_int [of 0] by simp

lemma is2dp_abs: "round2dp a = a \<Longrightarrow> round2dp \<bar>a\<bar> = \<bar>a\<bar>"
proof -
  assume "round2dp a = a"
  then obtain m :: int where "a = of_int m / 100" unfolding is2dp_iff by blast
  then have "\<bar>a\<bar> = of_int \<bar>m\<bar> / 100" by simp
  then show ?thesis unfolding is2dp_iff by blast
qed

lemma is2dp_sum_list: "(\<forall>x \<in> set xs. round2dp (f x) = f x) \<Longrightarrow> round2dp (sum_list (map f xs)) = sum_list (map f xs)"
  by (induction xs) (simp_all add: is2dp_add)

lemma round2dp_mono: "x \<le> y \<Longrightarrow> round2dp x \<le> round2dp y"
  unfolding round2dp_def Math_round_def
  by (simp add: divide_right_mono floor_mono)

lemma round2dp_nonneg: "0 \<le> x \<Longrightarrow> 0 \<le> round2dp x"
  using round2dp_mono [of 0 x] by simp

lemma calculateCost_2dp [simp]: "round2dp (calculateCost b q) = calculateCost b q"
  by (simp add: calculateCost_def Let_def)

lemma calculateProceeds_2dp [simp]: "round2dp (calculateProceeds b q) = calculateProceeds b q"
  by (simp add: calculateProceeds_def Let_def)

section \<open>The matcher in floating-point arithmetic: properties\<close>

subsection \<open>The rounding of the doubles\<close>

lemma twoToThe_pos: "0 < twoToThe k"
proof (induction k rule: twoToThe.induct)
  case (1 k)
  show ?case
  proof (cases "k \<le> 0")
    case True
    then show ?thesis by (simp add: twoToThe.simps)
  next
    case False
    with 1 have "0 < twoToThe (k - 1)" by simp
    with False show ?thesis by (subst twoToThe.simps) simp
  qed
qed

lemma scaleBy_nonneg: "0 \<le> x \<Longrightarrow> 0 \<le> scaleBy x k"
  using twoToThe_pos [of k] twoToThe_pos [of "- k"] by (simp add: scaleBy_def)

lemma roundHalfEven_nonneg: "0 \<le> y \<Longrightarrow> 0 \<le> roundHalfEven y"
proof -
  assume "0 \<le> y"
  then have "0 \<le> \<lfloor>y\<rfloor>" by simp
  then show ?thesis by (simp add: roundHalfEven_def Let_def)
qed

lemma binary64_zero: "binary64 0 = 0"
  by (simp add: binary64_def)

lemma binary64_nonneg: "0 \<le> x \<Longrightarrow> 0 \<le> binary64 x"
proof (cases "x = 0")
  case True
  then show ?thesis by (simp add: binary64_def)
next
  case False
  assume "0 \<le> x"
  with False have x: "0 < x" by simp
  have "0 \<le> scaleBy \<bar>x\<bar> (52 - exponentOf \<bar>x\<bar>)" by (rule scaleBy_nonneg) simp
  then have "0 \<le> roundHalfEven (scaleBy \<bar>x\<bar> (52 - exponentOf \<bar>x\<bar>))"
    by (rule roundHalfEven_nonneg)
  then have "0 \<le> scaleBy (of_int (roundHalfEven (scaleBy \<bar>x\<bar> (52 - exponentOf \<bar>x\<bar>))))
                    (exponentOf \<bar>x\<bar> - 52)"
    by (intro scaleBy_nonneg) simp
  with x False show ?thesis by (simp add: binary64_def Let_def)
qed

subsection \<open>The matching loop\<close>

lemma matchBuysFP_stop [simp]:
  "r \<le> 0 \<Longrightarrow> matchBuysFP rnd detail cs (r, tc, buys, ds) = (r, tc, buys, ds)"
  by (cases cs) simp_all

lemma matchBuysFP_step:
  "0 < r \<Longrightarrow> matchBuysFP rnd detail (i # rest) (r, tc, buys, ds) =
     matchBuysFP rnd detail rest
       (rnd (r - min r (t_remainingQty (buys ! i))),
        rnd (tc + calculateCostFP rnd (buys ! i) (min r (t_remainingQty (buys ! i)))),
        buys[i := (buys ! i)\<lparr>t_remainingQty :=
                 rnd (t_remainingQty (buys ! i) - min r (t_remainingQty (buys ! i)))\<rparr>],
        ds @ [detail (buys ! i) (min r (t_remainingQty (buys ! i)))
                (calculateCostFP rnd (buys ! i) (min r (t_remainingQty (buys ! i))))])"
  by (simp add: Let_def)

lemma matchBuysFP_length:
  "matchBuysFP rnd detail cs (r, tc, buys, ds) = (r', tc', buys', ds') \<Longrightarrow>
     length buys' = length buys"
proof (induction cs arbitrary: r tc buys ds)
  case Nil
  then show ?case by simp
next
  case (Cons i rest)
  show ?case
  proof (cases "0 < r")
    case True
    with Cons.prems have "length buys' = length (buys[i := (buys ! i)\<lparr>t_remainingQty :=
                 rnd (t_remainingQty (buys ! i) - min r (t_remainingQty (buys ! i)))\<rparr>])"
      using Cons.IH by (simp only: matchBuysFP_step)
    then show ?thesis by simp
  next
    case False
    with Cons.prems show ?thesis by simp
  qed
qed

text \<open>Only the remaining quantity of an acquisition changes, and only at the selected positions.\<close>

lemma matchBuysFP_untouched:
  "matchBuysFP rnd detail cs (r, tc, buys, ds) = (r', tc', buys', ds') \<Longrightarrow> j \<notin> set cs \<Longrightarrow>
     buys' ! j = buys ! j"
proof (induction cs arbitrary: r tc buys ds)
  case Nil
  then show ?case by simp
next
  case (Cons i rest)
  show ?case
  proof (cases "0 < r")
    case True
    from Cons.prems(2) have ne: "j \<noteq> i" and nin: "j \<notin> set rest" by auto
    from Cons.prems(1) True have "buys' ! j = (buys[i := (buys ! i)\<lparr>t_remainingQty :=
                 rnd (t_remainingQty (buys ! i) - min r (t_remainingQty (buys ! i)))\<rparr>]) ! j"
      using Cons.IH [OF _ nin] by (simp only: matchBuysFP_step)
    with ne show ?thesis by simp
  next
    case False
    with Cons.prems show ?thesis by simp
  qed
qed

lemma matchBuysFP_remaining_only:
  "matchBuysFP rnd detail cs (r, tc, buys, ds) = (r', tc', buys', ds') \<Longrightarrow> j < length buys \<Longrightarrow>
     buys' ! j = (buys ! j)\<lparr>t_remainingQty := t_remainingQty (buys' ! j)\<rparr>"
proof (induction cs arbitrary: r tc buys ds)
  case Nil
  then show ?case by simp
next
  case (Cons i rest)
  show ?case
  proof (cases "0 < r")
    case True
    define buys1 where "buys1 = buys[i := (buys ! i)\<lparr>t_remainingQty :=
                 rnd (t_remainingQty (buys ! i) - min r (t_remainingQty (buys ! i)))\<rparr>]"
    have len: "j < length buys1" using Cons.prems(2) by (simp add: buys1_def)
    from Cons.prems(1) True
    have "buys' ! j = (buys1 ! j)\<lparr>t_remainingQty := t_remainingQty (buys' ! j)\<rparr>"
      using Cons.IH [OF _ len] unfolding buys1_def by (simp only: matchBuysFP_step)
    moreover have "(buys1 ! j)\<lparr>t_remainingQty := x\<rparr> = (buys ! j)\<lparr>t_remainingQty := x\<rparr>" for x
      using Cons.prems(2) by (cases "j = i") (simp_all add: buys1_def)
    ultimately show ?thesis by simp
  next
    case False
    with Cons.prems show ?thesis by simp
  qed
qed

text \<open>While quantity is left to match, every selected acquisition is used up: taking all
  of what an acquisition has left leaves it the double 0.\<close>

lemma matchBuysFP_exhausts:
  assumes zero: "rnd 0 = 0"
  shows "matchBuysFP rnd detail cs (r, tc, buys, ds) = (r', tc', buys', ds') \<Longrightarrow> 0 < r' \<Longrightarrow>
     \<forall>i \<in> set cs. i < length buys \<Longrightarrow> j \<in> set cs \<Longrightarrow> t_remainingQty (buys' ! j) = 0"
proof (induction cs arbitrary: r tc buys ds)
  case Nil
  then show ?case by simp
next
  case (Cons i rest)
  show ?case
  proof (cases "0 < r")
    case True
    define q where "q = min r (t_remainingQty (buys ! i))"
    define buys1 where
      "buys1 = buys[i := (buys ! i)\<lparr>t_remainingQty := rnd (t_remainingQty (buys ! i) - q)\<rparr>]"
    from Cons.prems(1) True
    have run: "matchBuysFP rnd detail rest
                 (rnd (r - q), rnd (tc + calculateCostFP rnd (buys ! i) q), buys1,
                  ds @ [detail (buys ! i) q (calculateCostFP rnd (buys ! i) q)])
               = (r', tc', buys', ds')"
      unfolding buys1_def q_def by (simp only: matchBuysFP_step)
    have "rnd (r - q) > 0"
    proof (rule ccontr)
      assume "\<not> rnd (r - q) > 0"
      with run have "r' = rnd (r - q)" by simp
      with \<open>\<not> rnd (r - q) > 0\<close> Cons.prems(2) show False by simp
    qed
    then have "q \<noteq> r" using zero by auto
    then have q: "q = t_remainingQty (buys ! i)" unfolding q_def by (simp add: min_def split: if_splits)
    have in_range: "\<forall>k \<in> set rest. k < length buys1" using Cons.prems(3) by (simp add: buys1_def)
    show ?thesis
    proof (cases "j \<in> set rest")
      case True
      then show ?thesis using Cons.IH [OF run Cons.prems(2) in_range] by simp
    next
      case False
      with Cons.prems(4) have "j = i" by simp
      moreover have "buys' ! i = buys1 ! i"
        using matchBuysFP_untouched [OF run] False \<open>j = i\<close> by simp
      moreover have "i < length buys" using Cons.prems(3) by simp
      ultimately show ?thesis by (simp add: buys1_def q zero)
    qed
  next
    case False
    with Cons.prems show ?thesis by simp
  qed
qed

lemma matchBuysFP_nonneg:
  assumes nonneg: "\<And>x. 0 \<le> x \<Longrightarrow> 0 \<le> rnd x"
  shows "matchBuysFP rnd detail cs (r, tc, buys, ds) = (r', tc', buys', ds') \<Longrightarrow> 0 \<le> r \<Longrightarrow> 0 \<le> r'"
proof (induction cs arbitrary: r tc buys ds)
  case Nil
  then show ?case by simp
next
  case (Cons i rest)
  show ?case
  proof (cases "0 < r")
    case True
    have "0 \<le> rnd (r - min r (t_remainingQty (buys ! i)))" by (rule nonneg) simp
    with Cons.prems(1) True show ?thesis
      using Cons.IH by (simp only: matchBuysFP_step)
  next
    case False
    with Cons.prems show ?thesis by simp
  qed
qed

text \<open>No acquisition is drawn below zero.\<close>

lemma matchBuysFP_ok:
  assumes nonneg: "\<And>x. 0 \<le> x \<Longrightarrow> 0 \<le> rnd x"
  shows "matchBuysFP rnd detail cs (r, tc, buys, ds) = (r', tc', buys', ds') \<Longrightarrow>
     \<forall>i \<in> set cs. i < length buys \<Longrightarrow> remainingOk buys \<Longrightarrow> remainingOk buys'"
proof (induction cs arbitrary: r tc buys ds)
  case Nil
  then show ?case by simp
next
  case (Cons i rest)
  show ?case
  proof (cases "0 < r")
    case True
    define q where "q = min r (t_remainingQty (buys ! i))"
    define buys1 where
      "buys1 = buys[i := (buys ! i)\<lparr>t_remainingQty := rnd (t_remainingQty (buys ! i) - q)\<rparr>]"
    from Cons.prems(1) True
    have run: "matchBuysFP rnd detail rest
                 (rnd (r - q), rnd (tc + calculateCostFP rnd (buys ! i) q), buys1,
                  ds @ [detail (buys ! i) q (calculateCostFP rnd (buys ! i) q)])
               = (r', tc', buys', ds')"
      unfolding buys1_def q_def by (simp only: matchBuysFP_step)
    have "0 \<le> rnd (t_remainingQty (buys ! i) - q)" by (rule nonneg) (simp add: q_def)
    with Cons.prems(3) have "remainingOk buys1"
      unfolding buys1_def remainingOk_def list_all_iff by (auto dest: set_update_subset_insert [THEN subsetD])
    moreover have "\<forall>k \<in> set rest. k < length buys1" using Cons.prems(2) by (simp add: buys1_def)
    ultimately show ?thesis using Cons.IH [OF run] by simp
  next
    case False
    with Cons.prems show ?thesis by simp
  qed
qed

text \<open>The entries pushed carry the quantities by which the remaining quantity went down and
  the costs by which the total cost went up.\<close>

lemma matchBuysFP_details:
  assumes "matchBuysFP rnd detail cs (r, tc, buys, ds) = (r', tc', buys', ds')"
      and "\<And>b q c. md_quantity (detail b q c) = q \<and> md_cost (detail b q c) = c
                    \<and> md_rule (detail b q c) = rl"
  shows "\<exists>new. ds' = ds @ new \<and> r' = runDown rnd r (map md_quantity new)
            \<and> tc' = runUp rnd tc (map md_cost new)
            \<and> (\<forall>d \<in> set new. md_rule d = rl)"
  using assms(1)
proof (induction cs arbitrary: r tc buys ds)
  case Nil
  then show ?case by simp
next
  case (Cons i rest)
  show ?case
  proof (cases "0 < r")
    case True
    define q where "q = min r (t_remainingQty (buys ! i))"
    define c where "c = calculateCostFP rnd (buys ! i) q"
    define buys1 where
      "buys1 = buys[i := (buys ! i)\<lparr>t_remainingQty := rnd (t_remainingQty (buys ! i) - q)\<rparr>]"
    from Cons.prems(1) True
    have run: "matchBuysFP rnd detail rest
                 (rnd (r - q), rnd (tc + c), buys1, ds @ [detail (buys ! i) q c])
               = (r', tc', buys', ds')"
      unfolding buys1_def q_def c_def by (simp only: matchBuysFP_step)
    from Cons.IH [OF run] obtain new where new: "ds' = (ds @ [detail (buys ! i) q c]) @ new"
      "r' = runDown rnd (rnd (r - q)) (map md_quantity new)"
      "tc' = runUp rnd (rnd (tc + c)) (map md_cost new)"
      "\<forall>d \<in> set new. md_rule d = rl" by blast
    show ?thesis
      by (rule exI [of _ "detail (buys ! i) q c # new"]) (use new assms(2) in simp)
  next
    case False
    with Cons.prems show ?thesis by simp
  qed
qed

text \<open>The selected acquisitions are drawn on in the order of the selection: one is touched
  only when those before it are used up.\<close>

lemma matchBuysFP_in_order:
  assumes zero: "rnd 0 = 0"
  shows "matchBuysFP rnd detail cs (r, tc, buys, ds) = (r', tc', buys', ds') \<Longrightarrow> distinct cs \<Longrightarrow>
     \<forall>i \<in> set cs. i < length buys \<Longrightarrow> p < q \<Longrightarrow> q < length cs \<Longrightarrow>
     buys' ! (cs ! q) \<noteq> buys ! (cs ! q) \<Longrightarrow> t_remainingQty (buys' ! (cs ! p)) = 0"
proof (induction cs arbitrary: r tc buys ds p q)
  case Nil
  then show ?case by simp
next
  case (Cons i rest)
  show ?case
  proof (cases "0 < r")
    case True
    define m where "m = min r (t_remainingQty (buys ! i))"
    define buys1 where
      "buys1 = buys[i := (buys ! i)\<lparr>t_remainingQty := rnd (t_remainingQty (buys ! i) - m)\<rparr>]"
    from Cons.prems(1) True
    have run: "matchBuysFP rnd detail rest
                 (rnd (r - m), rnd (tc + calculateCostFP rnd (buys ! i) m), buys1,
                  ds @ [detail (buys ! i) m (calculateCostFP rnd (buys ! i) m)])
               = (r', tc', buys', ds')"
      unfolding buys1_def m_def by (simp only: matchBuysFP_step)
    from Cons.prems(4,5) obtain q' where q': "q = Suc q'" "q' < length rest"
      by (cases q) auto
    have qi: "rest ! q' \<noteq> i" using Cons.prems(2) q'(2) by auto
    then have same: "buys1 ! (rest ! q') = buys ! (rest ! q')" by (simp add: buys1_def)
    have changed: "buys' ! (rest ! q') \<noteq> buys1 ! (rest ! q')"
      using Cons.prems(6) q'(1) same by simp
    have "0 < rnd (r - m)"
    proof (rule ccontr)
      assume "\<not> 0 < rnd (r - m)"
      with run have "buys' = buys1" by simp
      with changed show False by simp
    qed
    then have "m \<noteq> r" using zero by auto
    then have m: "m = t_remainingQty (buys ! i)" unfolding m_def by (simp add: min_def split: if_splits)
    have in_range: "\<forall>k \<in> set rest. k < length buys1" using Cons.prems(3) by (simp add: buys1_def)
    show ?thesis
    proof (cases p)
      case 0
      have "buys' ! i = buys1 ! i"
        using matchBuysFP_untouched [OF run] Cons.prems(2) by simp
      moreover have "i < length buys" using Cons.prems(3) by simp
      ultimately show ?thesis using 0 by (simp add: buys1_def m zero)
    next
      case (Suc p')
      with Cons.prems(4) q'(1) have "p' < q'" by simp
      from Cons.IH [OF run _ in_range this q'(2) changed] Cons.prems(2)
      show ?thesis using Suc by simp
    qed
  next
    case False
    with Cons.prems show ?thesis by simp
  qed
qed

subsection \<open>The three rules\<close>

lemma selectFrom_set:
  "set (selectFrom k P buys) = {i + k |i. i < length buys \<and> P (buys ! i)}"
proof (induction buys arbitrary: k)
  case Nil
  then show ?case by simp
next
  case (Cons b rest)
  have "{i + k |i. i < length (b # rest) \<and> P ((b # rest) ! i)}
        = (if P b then {k} else {}) \<union> {i + Suc k |i. i < length rest \<and> P (rest ! i)}"
    (is "?L = ?R")
  proof (rule set_eqI)
    fix x
    show "x \<in> ?L \<longleftrightarrow> x \<in> ?R"
    proof
      assume "x \<in> ?L"
      then obtain i where i: "x = i + k" "i < length (b # rest)" "P ((b # rest) ! i)" by blast
      then show "x \<in> ?R" by (cases i) auto
    next
      assume "x \<in> ?R"
      then consider "P b" "x = k" | i where "x = i + Suc k" "i < length rest" "P (rest ! i)"
        by (auto split: if_splits)
      then show "x \<in> ?L"
      proof cases
        case 1
        then show ?thesis by (intro CollectI exI [of _ 0]) simp
      next
        case 2
        then show ?thesis by (intro CollectI exI [of _ "Suc i"]) simp
      qed
    qed
  qed
  then show ?case by (simp add: Cons.IH)
qed

lemma selectFrom_lower: "i \<in> set (selectFrom k P buys) \<Longrightarrow> k \<le> i"
  by (auto simp: selectFrom_set)

lemma selectFrom_sorted: "sorted (selectFrom k P buys) \<and> distinct (selectFrom k P buys)"
proof (induction buys arbitrary: k)
  case Nil
  then show ?case by simp
next
  case (Cons b rest)
  have "\<forall>i \<in> set (selectFrom (Suc k) P rest). k < i"
    using selectFrom_lower [of _ "Suc k" P rest] by (auto simp: Suc_le_eq)
  with Cons.IH [of "Suc k"] show ?case by auto
qed

lemma select_set [simp]: "set (select P buys) = {i. i < length buys \<and> P (buys ! i)}"
  by (simp add: select_def selectFrom_set)

lemma select_distinct [simp]: "distinct (select P buys)"
  by (simp add: select_def selectFrom_sorted)

lemma select_sorted [simp]: "sorted (select P buys)"
  by (simp add: select_def selectFrom_sorted)

lemma sameDayDetailFP_fields:
  "md_quantity (sameDayDetailFP rnd pps b q c) = q \<and> md_cost (sameDayDetailFP rnd pps b q c) = c
   \<and> md_rule (sameDayDetailFP rnd pps b q c) = SAME_DAY"
  by (simp add: sameDayDetailFP_def Let_def)

lemma bnbDetailFP_fields:
  "md_quantity (bnbDetailFP rnd pps d pool b q c) = q
   \<and> md_cost (bnbDetailFP rnd pps d pool b q c) = c
   \<and> md_rule (bnbDetailFP rnd pps d pool b q c) = BED_AND_BREAKFAST"
  by (simp add: bnbDetailFP_def Let_def)

lemma runDown_append: "runDown rnd r (xs @ ys) = runDown rnd (runDown rnd r xs) ys"
  by (induction xs arbitrary: r) simp_all

lemma runUp_append: "runUp rnd a (xs @ ys) = runUp rnd (runUp rnd a xs) ys"
  by (induction xs arbitrary: a) simp_all

text \<open>What each of the three rules adds to the running values.\<close>

lemma sameDayRuleFP_details:
  assumes "sameDayRuleFP rnd disposal pps (r, tc, buys, ds) = (r', tc', buys', ds')"
  shows "\<exists>new. ds' = ds @ new \<and> r' = runDown rnd r (map md_quantity new)
            \<and> tc' = runUp rnd tc (map md_cost new)
            \<and> (\<forall>d \<in> set new. md_rule d = SAME_DAY)"
  using assms unfolding sameDayRuleFP_def
  by (simp only: prod.case) (rule matchBuysFP_details, assumption, rule sameDayDetailFP_fields)

lemma bnbRuleFP_details:
  assumes "bnbRuleFP rnd disposal pps pool (r, tc, buys, ds) = (r', tc', buys', ds')"
  shows "\<exists>new. ds' = ds @ new \<and> r' = runDown rnd r (map md_quantity new)
            \<and> tc' = runUp rnd tc (map md_cost new)
            \<and> (\<forall>d \<in> set new. md_rule d = BED_AND_BREAKFAST)"
proof (cases "0 < r")
  case True
  with assms have "matchBuysFP rnd (bnbDetailFP rnd pps (t_date disposal) pool)
                     (bnbBuys disposal buys) (r, tc, buys, ds) = (r', tc', buys', ds')"
    by (simp add: bnbRuleFP_def)
  then show ?thesis by (rule matchBuysFP_details) (rule bnbDetailFP_fields)
next
  case False
  with assms have "ds' = ds @ [] \<and> r' = r \<and> tc' = tc" by (simp add: bnbRuleFP_def)
  then show ?thesis by (intro exI [of _ "[]"]) simp
qed

lemma drawFromPoolFP_details:
  assumes "drawFromPoolFP rnd pps ((r, tc, buys, ds), pool) = ((r', tc', buys', ds'), pool')"
  shows "\<exists>new. ds' = ds @ new \<and> r' = runDown rnd r (map md_quantity new)
            \<and> tc' = runUp rnd tc (map md_cost new) \<and> length new \<le> 1 \<and> buys' = buys
            \<and> (\<forall>d \<in> set new. md_rule d = SECTION_104)"
proof (cases "0 < p_quantity pool")
  case True
  with assms show ?thesis
    by (auto simp: drawFromPoolFP_def Let_def)
next
  case False
  with assms have "ds' = ds @ [] \<and> r' = r \<and> tc' = tc \<and> buys' = buys"
    by (simp add: drawFromPoolFP_def)
  then show ?thesis by (intro exI [of _ "[]"]) simp
qed

lemma section104RuleFP_details:
  assumes "section104RuleFP rnd disposal pps ((r, tc, buys, ds), pool) = ((r', tc', buys', ds'), pool')"
  shows "\<exists>new. ds' = ds @ new \<and> r' = runDown rnd r (map md_quantity new)
            \<and> tc' = runUp rnd tc (map md_cost new) \<and> length new \<le> 1
            \<and> (\<forall>d \<in> set new. md_rule d = SECTION_104)"
proof (cases "0 < r")
  case True
  obtain b1 p1 where roll: "rollEarlierFP rnd (earlierBuys disposal buys) (buys, pool) = (b1, p1)"
    by (cases "rollEarlierFP rnd (earlierBuys disposal buys) (buys, pool)")
  with assms True have "drawFromPoolFP rnd pps ((r, tc, b1, ds), p1) = ((r', tc', buys', ds'), pool')"
    by (simp add: section104RuleFP_def)
  from drawFromPoolFP_details [OF this] show ?thesis by blast
next
  case False
  with assms have "ds' = ds @ [] \<and> r' = r \<and> tc' = tc" by (simp add: section104RuleFP_def)
  then show ?thesis by (intro exI [of _ "[]"]) simp
qed

lemma matching_parts [simp]:
  "remainingOf (r, tc, buys, ds) = r" "buysOf (r, tc, buys, ds) = buys"
  "detailsOf (r, tc, buys, ds) = ds"
  by (simp_all add: remainingOf_def buysOf_def detailsOf_def)

text \<open>The running values after each rule.\<close>

lemma matchDisposalFP_stages:
  assumes "matchDisposalFP rnd disposal buys pool = ((r, tc, buys', ds), pool')"
  obtains r1 tc1 b1 ds1 r2 tc2 b2 ds2 where
    "afterSameDayFP rnd disposal buys = (r1, tc1, b1, ds1)"
    "afterBnbFP rnd disposal buys pool = (r2, tc2, b2, ds2)"
    "sameDayRuleFP rnd disposal (proceedsPerShareOfFP rnd disposal)
       (t_quantity disposal, 0, buys, []) = (r1, tc1, b1, ds1)"
    "bnbRuleFP rnd disposal (proceedsPerShareOfFP rnd disposal) pool (r1, tc1, b1, ds1)
       = (r2, tc2, b2, ds2)"
    "section104RuleFP rnd disposal (proceedsPerShareOfFP rnd disposal) ((r2, tc2, b2, ds2), pool)
       = ((r, tc, buys', ds), pool')"
proof -
  obtain r1 tc1 b1 ds1 where s1: "afterSameDayFP rnd disposal buys = (r1, tc1, b1, ds1)"
    by (metis prod_cases4)
  obtain r2 tc2 b2 ds2 where s2: "afterBnbFP rnd disposal buys pool = (r2, tc2, b2, ds2)"
    by (metis prod_cases4)
  have s1': "sameDayRuleFP rnd disposal (proceedsPerShareOfFP rnd disposal)
       (t_quantity disposal, 0, buys, []) = (r1, tc1, b1, ds1)"
    using s1 by (simp add: afterSameDayFP_def)
  have s2': "bnbRuleFP rnd disposal (proceedsPerShareOfFP rnd disposal) pool (r1, tc1, b1, ds1)
       = (r2, tc2, b2, ds2)"
    using s2 s1 by (simp add: afterBnbFP_def)
  have "section104RuleFP rnd disposal (proceedsPerShareOfFP rnd disposal) ((r2, tc2, b2, ds2), pool)
       = ((r, tc, buys', ds), pool')"
    using assms s2 by (simp add: matchDisposalFP_def)
  with s1 s2 s1' s2' show thesis by (rule that)
qed

text \<open>The match details of a disposal against the remaining quantity and the total cost.\<close>

lemma matchDisposalFP_accounts:
  assumes "matchDisposalFP rnd disposal buys pool = ((r, tc, buys', ds), pool')"
  shows "r = runDown rnd (t_quantity disposal) (map md_quantity ds)"
    and "tc = runUp rnd 0 (map md_cost ds)"
proof -
  from assms obtain r1 tc1 b1 ds1 r2 tc2 b2 ds2 where
    s1: "sameDayRuleFP rnd disposal (proceedsPerShareOfFP rnd disposal)
           (t_quantity disposal, 0, buys, []) = (r1, tc1, b1, ds1)" and
    s2: "bnbRuleFP rnd disposal (proceedsPerShareOfFP rnd disposal) pool (r1, tc1, b1, ds1)
           = (r2, tc2, b2, ds2)" and
    s3: "section104RuleFP rnd disposal (proceedsPerShareOfFP rnd disposal) ((r2, tc2, b2, ds2), pool)
           = ((r, tc, buys', ds), pool')"
    by (rule matchDisposalFP_stages)
  from sameDayRuleFP_details [OF s1] obtain n1 where n1: "ds1 = n1"
    "r1 = runDown rnd (t_quantity disposal) (map md_quantity n1)"
    "tc1 = runUp rnd 0 (map md_cost n1)" by auto
  from bnbRuleFP_details [OF s2] obtain n2 where n2: "ds2 = ds1 @ n2"
    "r2 = runDown rnd r1 (map md_quantity n2)" "tc2 = runUp rnd tc1 (map md_cost n2)" by auto
  from section104RuleFP_details [OF s3] obtain n3 where n3: "ds = ds2 @ n3"
    "r = runDown rnd r2 (map md_quantity n3)" "tc = runUp rnd tc2 (map md_cost n3)" by auto
  show "r = runDown rnd (t_quantity disposal) (map md_quantity ds)"
    using n1(1,2) n2(1,2) n3(1,2) by (simp add: runDown_append)
  show "tc = runUp rnd 0 (map md_cost ds)"
    using n1(1,3) n2(1,3) n3(1,3) by (simp add: runUp_append)
qed

subsection \<open>Accounting for a disposal\<close>

lemma recordDisposal_fields:
  "\<exists>d. disposals (recordDisposal rnd symbol disposal (r, tc, b, ds) st) = disposals st @ [d]
        \<and> d_symbol d = symbol \<and> d_date d = formatDateLocal (t_date disposal)
        \<and> d_quantity d = t_quantity disposal \<and> d_matchDetails d = ds
        \<and> d_cost d = round2dpFP rnd tc"
  by (simp add: recordDisposal.simps Let_def)

lemma recordDisposal_errors:
  "errors (recordDisposal rnd symbol disposal (r, tc, b, ds) st) =
     (if 0 < r
      then errors st @ [\<lparr> e_type = ''UNMATCHED_DISPOSAL'', e_symbol = symbol,
                          e_date = formatDateLocal (t_date disposal), e_unmatchedQuantity = r \<rparr>]
      else errors st)"
  by (simp add: recordDisposal.simps Let_def)

lemma recordDisposal_pools:
  "section104Pools (recordDisposal rnd symbol disposal m st) = section104Pools st"
  by (cases m) (simp add: recordDisposal.simps Let_def)




subsection \<open>The quantity of a pool is never negative\<close>

lemma remainingOk_nth: "remainingOk buys \<Longrightarrow> i < length buys \<Longrightarrow> 0 \<le> t_remainingQty (buys ! i)"
  by (simp add: remainingOk_def list_all_length)

lemma remainingOk_update:
  "remainingOk buys \<Longrightarrow> 0 \<le> t_remainingQty b \<Longrightarrow> remainingOk (buys[i := b])"
  unfolding remainingOk_def list_all_iff
  by (auto dest: set_update_subset_insert [THEN subsetD])

lemma rollEarlierFP_ok:
  assumes nonneg: "\<And>x. 0 \<le> x \<Longrightarrow> 0 \<le> rnd x"
  shows "rollEarlierFP rnd cs (buys, pool) = (buys', pool') \<Longrightarrow>
     \<forall>i \<in> set cs. i < length buys \<Longrightarrow> remainingOk buys \<Longrightarrow> 0 \<le> p_quantity pool \<Longrightarrow>
     remainingOk buys' \<and> 0 \<le> p_quantity pool'"
proof (induction cs arbitrary: buys pool)
  case Nil
  then show ?case by simp
next
  case (Cons i rest)
  define buys1 where "buys1 = buys[i := (buys ! i)\<lparr>t_remainingQty := 0\<rparr>]"
  define pool1 where
    "pool1 = \<lparr> p_quantity = rnd (p_quantity pool + t_remainingQty (buys ! i)),
               p_cost = rnd (p_cost pool
                             + calculateCostFP rnd (buys ! i) (t_remainingQty (buys ! i))) \<rparr>"
  from Cons.prems(1) have run: "rollEarlierFP rnd rest (buys1, pool1) = (buys', pool')"
    by (simp add: buys1_def pool1_def Let_def)
  have "0 \<le> t_remainingQty (buys ! i)"
    using Cons.prems(2,3) by (simp add: remainingOk_nth)
  with Cons.prems(4) have "0 \<le> p_quantity pool1"
    unfolding pool1_def by (simp add: nonneg)
  moreover have "remainingOk buys1"
    unfolding buys1_def using Cons.prems(3) by (rule remainingOk_update) simp
  moreover have "\<forall>k \<in> set rest. k < length buys1" using Cons.prems(2) by (simp add: buys1_def)
  ultimately show ?case using Cons.IH [OF run] by simp
qed

lemma drawFromPoolFP_ok:
  assumes nonneg: "\<And>x. 0 \<le> x \<Longrightarrow> 0 \<le> rnd x"
      and "drawFromPoolFP rnd pps ((r, tc, buys, ds), pool) = ((r', tc', buys', ds'), pool')"
      and "0 \<le> p_quantity pool"
  shows "buys' = buys \<and> 0 \<le> p_quantity pool'"
proof (cases "0 < p_quantity pool")
  case True
  have "0 \<le> rnd (p_quantity pool - min r (p_quantity pool))" by (rule nonneg) simp
  with assms(2) True show ?thesis by (auto simp: drawFromPoolFP_def Let_def)
next
  case False
  with assms(2,3) show ?thesis by (simp add: drawFromPoolFP_def)
qed

lemma sameDayBuys_in_range: "\<forall>i \<in> set (sameDayBuys disposal buys). i < length buys"
  by (simp add: sameDayBuys_def)

lemma bnbBuys_in_range: "\<forall>i \<in> set (bnbBuys disposal buys). i < length buys"
  by (simp add: bnbBuys_def)

lemma earlierBuys_in_range: "\<forall>i \<in> set (earlierBuys disposal buys). i < length buys"
  by (simp add: earlierBuys_def)

lemma sameDayRuleFP_ok:
  assumes nonneg: "\<And>x. 0 \<le> x \<Longrightarrow> 0 \<le> rnd x"
      and "sameDayRuleFP rnd disposal pps (r, tc, buys, ds) = (r', tc', buys', ds')"
      and "remainingOk buys"
  shows "remainingOk buys'"
proof -
  from assms(2) have "matchBuysFP rnd (sameDayDetailFP rnd pps) (sameDayBuys disposal buys)
                        (r, tc, buys, ds) = (r', tc', buys', ds')"
    by (simp add: sameDayRuleFP_def)
  from matchBuysFP_ok [OF nonneg this sameDayBuys_in_range assms(3)] show ?thesis .
qed

lemma bnbRuleFP_ok:
  assumes nonneg: "\<And>x. 0 \<le> x \<Longrightarrow> 0 \<le> rnd x"
      and "bnbRuleFP rnd disposal pps pool (r, tc, buys, ds) = (r', tc', buys', ds')"
      and "remainingOk buys"
  shows "remainingOk buys'"
proof (cases "0 < r")
  case True
  with assms(2) have "matchBuysFP rnd (bnbDetailFP rnd pps (t_date disposal) pool)
                     (bnbBuys disposal buys) (r, tc, buys, ds) = (r', tc', buys', ds')"
    by (simp add: bnbRuleFP_def)
  from matchBuysFP_ok [OF nonneg this bnbBuys_in_range assms(3)] show ?thesis .
next
  case False
  with assms(2,3) show ?thesis by (simp add: bnbRuleFP_def)
qed

lemma section104RuleFP_ok:
  assumes nonneg: "\<And>x. 0 \<le> x \<Longrightarrow> 0 \<le> rnd x"
      and "section104RuleFP rnd disposal pps ((r, tc, buys, ds), pool) = ((r', tc', buys', ds'), pool')"
      and "remainingOk buys" "0 \<le> p_quantity pool"
  shows "remainingOk buys' \<and> 0 \<le> p_quantity pool'"
proof (cases "0 < r")
  case True
  obtain b1 p1 where roll: "rollEarlierFP rnd (earlierBuys disposal buys) (buys, pool) = (b1, p1)"
    by (cases "rollEarlierFP rnd (earlierBuys disposal buys) (buys, pool)")
  from rollEarlierFP_ok [OF nonneg roll earlierBuys_in_range assms(3,4)]
  have ok: "remainingOk b1" "0 \<le> p_quantity p1" by simp_all
  from assms(2) True roll
  have "drawFromPoolFP rnd pps ((r, tc, b1, ds), p1) = ((r', tc', buys', ds'), pool')"
    by (simp add: section104RuleFP_def)
  from drawFromPoolFP_ok [OF nonneg this ok(2)] ok(1) show ?thesis by simp
next
  case False
  with assms(2-4) show ?thesis by (simp add: section104RuleFP_def)
qed

lemma matchDisposalFP_ok:
  assumes nonneg: "\<And>x. 0 \<le> x \<Longrightarrow> 0 \<le> rnd x"
      and "matchDisposalFP rnd disposal buys pool = ((r, tc, buys', ds), pool')"
      and "remainingOk buys" "0 \<le> p_quantity pool"
  shows "remainingOk buys' \<and> 0 \<le> p_quantity pool'"
proof -
  from assms(2) obtain r1 tc1 b1 ds1 r2 tc2 b2 ds2 where
    s1: "sameDayRuleFP rnd disposal (proceedsPerShareOfFP rnd disposal)
           (t_quantity disposal, 0, buys, []) = (r1, tc1, b1, ds1)" and
    s2: "bnbRuleFP rnd disposal (proceedsPerShareOfFP rnd disposal) pool (r1, tc1, b1, ds1)
           = (r2, tc2, b2, ds2)" and
    s3: "section104RuleFP rnd disposal (proceedsPerShareOfFP rnd disposal) ((r2, tc2, b2, ds2), pool)
           = ((r, tc, buys', ds), pool')"
    by (rule matchDisposalFP_stages)
  from sameDayRuleFP_ok [OF nonneg s1 assms(3)] have "remainingOk b1" .
  from bnbRuleFP_ok [OF nonneg s2 this] have "remainingOk b2" .
  from section104RuleFP_ok [OF nonneg s3 this assms(4)] show ?thesis .
qed

text \<open>The pools of a calculator, one stored.\<close>

lemma set_store: "set (store k v al) \<subseteq> insert (k, v) (set al)"
  by (induction al) (auto split: if_splits)

lemma map_of_store [simp]: "map_of (store k v al) = (map_of al)(k \<mapsto> v)"
  by (induction al) auto

lemma poolsOk_store:
  "poolsOk st \<Longrightarrow> 0 \<le> p_quantity p \<Longrightarrow>
     poolsOk (st\<lparr> section104Pools := store symbol p (section104Pools st) \<rparr>)"
  using set_store [of symbol p "section104Pools st"]
  by (auto simp: poolsOk_def list_all_iff)

lemma poolsOk_lookup:
  "poolsOk st \<Longrightarrow> map_of (section104Pools st) symbol = Some p \<Longrightarrow> 0 \<le> p_quantity p"
proof -
  assume ok: "poolsOk st" and "map_of (section104Pools st) symbol = Some p"
  then have "(symbol, p) \<in> set (section104Pools st)" by (simp add: map_of_SomeD)
  with ok have "0 \<le> p_quantity (snd (symbol, p))"
    unfolding poolsOk_def list_all_iff by (rule bspec)
  then show ?thesis by simp
qed

lemma poolsOk_recordDisposal:
  "poolsOk (recordDisposal rnd symbol disposal m st) = poolsOk st"
  by (simp add: poolsOk_def recordDisposal_pools)

text \<open>A disposal of a symbol that has a pool does not throw; it leaves the pool in place,
  no acquisition with a negative quantity left and no pool with a negative quantity.\<close>

lemma processDisposalFP_ok:
  assumes nonneg: "\<And>x. 0 \<le> x \<Longrightarrow> 0 \<le> rnd x"
      and "map_of (section104Pools st) symbol \<noteq> None" "remainingOk buys" "poolsOk st"
  shows "\<exists>buys' st'. processDisposalFP rnd symbol disposal (buys, st) = Inr (buys', st')
           \<and> map_of (section104Pools st') symbol \<noteq> None \<and> remainingOk buys' \<and> poolsOk st'"
proof -
  from assms(2) obtain pool where pool: "map_of (section104Pools st) symbol = Some pool" by auto
  obtain r tc b ds pool' where m: "matchDisposalFP rnd disposal buys pool = ((r, tc, b, ds), pool')"
    by (metis prod_cases4 surj_pair)
  from matchDisposalFP_ok [OF nonneg m assms(3) poolsOk_lookup [OF assms(4) pool]]
  have ok: "remainingOk b" "0 \<le> p_quantity pool'" by simp_all
  define st1 where "st1 = st\<lparr> section104Pools := store symbol pool' (section104Pools st) \<rparr>"
  from pool m have res: "processDisposalFP rnd symbol disposal (buys, st)
                 = Inr (b, recordDisposal rnd symbol disposal (r, tc, b, ds) st1)"
    by (simp add: processDisposalFP_def st1_def)
  have "poolsOk st1" unfolding st1_def using assms(4) ok(2) by (rule poolsOk_store)
  then have "poolsOk (recordDisposal rnd symbol disposal (r, tc, b, ds) st1)"
    by (simp add: poolsOk_recordDisposal)
  moreover have "map_of (section104Pools (recordDisposal rnd symbol disposal (r, tc, b, ds) st1))
                   symbol \<noteq> None"
    by (simp add: recordDisposal_pools st1_def)
  ultimately show ?thesis using res ok(1) by blast
qed

lemma disposalsLoop_ok:
  assumes nonneg: "\<And>x. 0 \<le> x \<Longrightarrow> 0 \<le> rnd x"
  shows "map_of (section104Pools st) symbol \<noteq> None \<Longrightarrow> remainingOk buys \<Longrightarrow> poolsOk st \<Longrightarrow>
     \<exists>buys' st'. disposalsLoop rnd symbol sells (buys, st) = Inr (buys', st')
        \<and> map_of (section104Pools st') symbol \<noteq> None \<and> remainingOk buys' \<and> poolsOk st'"
proof (induction sells arbitrary: buys st)
  case Nil
  then show ?case by simp
next
  case (Cons s sells)
  from processDisposalFP_ok [where rnd = rnd and disposal = s, OF nonneg Cons.prems]
  obtain b1 st1 where step: "processDisposalFP rnd symbol s (buys, st) = Inr (b1, st1)"
    "map_of (section104Pools st1) symbol \<noteq> None" "remainingOk b1" "poolsOk st1" by blast
  from Cons.IH [OF step(2-4)] step(1) show ?case by simp
qed

lemma beginSymbolFP_ok:
  "poolsOk st \<Longrightarrow> poolsOk (beginSymbolFP rnd symbol transactions st)
     \<and> map_of (section104Pools (beginSymbolFP rnd symbol transactions st)) symbol \<noteq> None"
proof (cases "map_of (section104Pools st) symbol")
  case None
  assume "poolsOk st"
  with None show ?thesis
    by (simp add: beginSymbolFP_def poolsOk_def emptyPool_def Let_def map_add_def)
next
  case (Some p)
  assume "poolsOk st"
  with Some show ?thesis by (simp add: beginSymbolFP_def poolsOk_def Let_def)
qed

lemma afterDisposalsFP_ok:
  assumes nonneg: "\<And>x. 0 \<le> x \<Longrightarrow> 0 \<le> rnd x"
      and "poolsOk st" "remainingOk (buyTxns transactions)"
  shows "\<exists>buys' st'. afterDisposalsFP rnd symbol transactions st k = Inr (buys', st')
           \<and> map_of (section104Pools st') symbol \<noteq> None \<and> remainingOk buys' \<and> poolsOk st'"
  unfolding afterDisposalsFP_def
  using beginSymbolFP_ok [OF assms(2), where rnd = rnd and symbol = symbol
      and transactions = transactions]
  by (intro disposalsLoop_ok [OF nonneg] assms(3)) simp_all

lemma fold_rollInFP_ok:
  assumes nonneg: "\<And>x. 0 \<le> x \<Longrightarrow> 0 \<le> rnd x"
  shows "0 \<le> p_quantity pool \<Longrightarrow> 0 \<le> p_quantity (fold (rollInFP rnd) buys pool)"
proof (induction buys arbitrary: pool)
  case Nil
  then show ?case by simp
next
  case (Cons b buys)
  have "0 \<le> p_quantity (rollInFP rnd b pool)"
    using Cons.prems by (simp add: rollInFP_def nonneg)
  from Cons.IH [OF this] show ?case by simp
qed

lemma processSymbolFP_afterDisposals:
  "processSymbolFP rnd symbol transactions st =
     (case afterDisposalsFP rnd symbol transactions st (length (sellTxns transactions)) of
        Inl e \<Rightarrow> Inl e
      | Inr (buys', st3) \<Rightarrow>
          Inr (st3\<lparr> section104Pools :=
                 store symbol (fold (rollInFP rnd) buys' (poolOf st3 symbol))
                   (section104Pools st3) \<rparr>))"
  by (simp add: processSymbolFP_def afterDisposalsFP_def buyTxns_def sellTxns_def Let_def)




subsection \<open>The precedence of the three rules\<close>

text \<open>The order of a selection that is sorted by a key.\<close>

lemma sorted_positions:
  assumes "sorted (map f cs)" "i \<in> set cs" "j \<in> set cs" "f i < f j"
  obtains p q where "p < q" "q < length cs" "cs ! p = i" "cs ! q = j"
proof -
  from assms(2,3) obtain p q where pq: "p < length cs" "cs ! p = i" "q < length cs" "cs ! q = j"
    by (auto simp: in_set_conv_nth)
  have "p < q"
  proof (rule ccontr)
    assume "\<not> p < q"
    then have "q \<le> p" by simp
    from sorted_nth_mono [OF assms(1) this] pq have "f (cs ! q) \<le> f (cs ! p)"
      by simp
    with pq assms(4) show False by simp
  qed
  with pq show thesis using that by blast
qed

lemma matchBuysFP_in_key_order:
  assumes "matchBuysFP rnd detail cs (r, tc, buys, ds) = (r', tc', buys', ds')"
      and "distinct cs" "\<forall>i \<in> set cs. i < length buys" "sorted (map f cs)"
      and "i \<in> set cs" "f i < f j" "buys' ! j \<noteq> buys ! j"
      and zero: "rnd 0 = 0"
  shows "t_remainingQty (buys' ! i) = 0"
proof -
  have "j \<in> set cs" using matchBuysFP_untouched [OF assms(1)] assms(7) by blast
  from assms(4,5) this assms(6) obtain p q where "p < q" "q < length cs" "cs ! p = i" "cs ! q = j"
    by (rule sorted_positions)
  with matchBuysFP_in_order [OF zero assms(1,2,3), of p q] assms(7) show ?thesis by simp
qed

lemma matchBuysFP_date:
  "matchBuysFP rnd detail cs (r, tc, buys, ds) = (r', tc', buys', ds') \<Longrightarrow> j < length buys \<Longrightarrow>
     t_date (buys' ! j) = t_date (buys ! j)"
  by (drule (1) matchBuysFP_remaining_only) (metis txn.select_convs(2) txn.surjective txn.update_convs(14))

text \<open>1. The same-day rule.\<close>

lemma sameDayBuys_props:
  "distinct (sameDayBuys disposal buys)" "sorted (sameDayBuys disposal buys)"
  "set (sameDayBuys disposal buys) =
     {i. i < length buys \<and> onSameDay disposal (buys ! i) \<and> 0 < t_remainingQty (buys ! i)}"
  by (simp_all add: sameDayBuys_def sameDayCandidate_def onSameDay_def)

lemma afterSameDayFP_run:
  "matchBuysFP rnd (sameDayDetailFP rnd (proceedsPerShareOfFP rnd disposal)) (sameDayBuys disposal buys)
     (t_quantity disposal, 0, buys, [])
   = (remainingOf (afterSameDayFP rnd disposal buys), fst (snd (afterSameDayFP rnd disposal buys)),
      buysOf (afterSameDayFP rnd disposal buys), detailsOf (afterSameDayFP rnd disposal buys))"
  by (simp add: afterSameDayFP_def sameDayRuleFP_def remainingOf_def buysOf_def detailsOf_def)

lemma sameDay_used_up:
  assumes "0 < remainingOf (afterSameDayFP rnd disposal buys)" "i < length buys"
      and "onSameDay disposal (buys ! i)"
      and zero: "rnd 0 = 0"
  shows "\<not> 0 < t_remainingQty (buysOf (afterSameDayFP rnd disposal buys) ! i)"
proof (cases "i \<in> set (sameDayBuys disposal buys)")
  case True
  from matchBuysFP_exhausts [OF zero afterSameDayFP_run assms(1) _ True]
  show ?thesis by (simp add: sameDayBuys_props)
next
  case False
  with assms(2,3) have "\<not> 0 < t_remainingQty (buys ! i)" by (simp add: sameDayBuys_props)
  with matchBuysFP_untouched [OF afterSameDayFP_run False] show ?thesis by simp
qed

lemma sameDay_in_order:
  assumes "i < j" "j < length buys" "onSameDay disposal (buys ! i)"
      and "buysOf (afterSameDayFP rnd disposal buys) ! j \<noteq> buys ! j"
      and zero: "rnd 0 = 0"
  shows "\<not> 0 < t_remainingQty (buysOf (afterSameDayFP rnd disposal buys) ! i)"
proof (cases "i \<in> set (sameDayBuys disposal buys)")
  case True
  have "sorted (map (\<lambda>k. k) (sameDayBuys disposal buys))" by (simp add: sameDayBuys_props)
  from matchBuysFP_in_key_order [OF afterSameDayFP_run sameDayBuys_props(1) _ this True assms(1,4) zero]
  show ?thesis by (simp add: sameDayBuys_props)
next
  case False
  with assms(1,2,3) have "\<not> 0 < t_remainingQty (buys ! i)" by (simp add: sameDayBuys_props)
  with matchBuysFP_untouched [OF afterSameDayFP_run False] show ?thesis by simp
qed

lemma afterSameDayFP_length: "length (buysOf (afterSameDayFP rnd disposal buys)) = length buys"
  using matchBuysFP_length [OF afterSameDayFP_run] .

lemma afterSameDayFP_date:
  "i < length buys \<Longrightarrow> t_date (buysOf (afterSameDayFP rnd disposal buys) ! i) = t_date (buys ! i)"
  using matchBuysFP_date [OF afterSameDayFP_run] .

text \<open>2. The bed-and-breakfast rule.\<close>

lemma bnbBuys_props:
  "distinct (bnbBuys disposal buys)"
  "sorted (map (\<lambda>i. getTime (t_date (buys ! i))) (bnbBuys disposal buys))"
  "set (bnbBuys disposal buys) =
     {i. i < length buys \<and> within30 disposal (buys ! i) \<and> 0 < t_remainingQty (buys ! i)}"
  by (simp_all add: bnbBuys_def bnbCandidate_def within30_def)

lemma afterBnbFP_skip:
  "\<not> 0 < remainingOf (afterSameDayFP rnd disposal buys) \<Longrightarrow>
     afterBnbFP rnd disposal buys pool = afterSameDayFP rnd disposal buys"
  by (cases "afterSameDayFP rnd disposal buys") (simp add: afterBnbFP_def bnbRuleFP_def remainingOf_def)

lemma afterBnbFP_run:
  assumes "0 < remainingOf (afterSameDayFP rnd disposal buys)"
  shows "matchBuysFP rnd (bnbDetailFP rnd (proceedsPerShareOfFP rnd disposal) (t_date disposal) pool)
           (bnbBuys disposal (buysOf (afterSameDayFP rnd disposal buys)))
           (remainingOf (afterSameDayFP rnd disposal buys), fst (snd (afterSameDayFP rnd disposal buys)),
            buysOf (afterSameDayFP rnd disposal buys), detailsOf (afterSameDayFP rnd disposal buys))
         = (remainingOf (afterBnbFP rnd disposal buys pool), fst (snd (afterBnbFP rnd disposal buys pool)),
            buysOf (afterBnbFP rnd disposal buys pool), detailsOf (afterBnbFP rnd disposal buys pool))"
  using assms
  by (cases "afterSameDayFP rnd disposal buys")
     (simp add: afterBnbFP_def bnbRuleFP_def remainingOf_def buysOf_def detailsOf_def)

lemma afterBnbFP_remaining:
  "0 < remainingOf (afterBnbFP rnd disposal buys pool) \<Longrightarrow> 0 < remainingOf (afterSameDayFP rnd disposal buys)"
  by (rule ccontr) (simp add: afterBnbFP_skip)

lemma bnb_used_up:
  assumes "0 < remainingOf (afterBnbFP rnd disposal buys pool)" "i < length buys"
      and "within30 disposal (buys ! i)"
      and zero: "rnd 0 = 0"
  shows "\<not> 0 < t_remainingQty (buysOf (afterBnbFP rnd disposal buys pool) ! i)"
proof -
  define b1 where "b1 = buysOf (afterSameDayFP rnd disposal buys)"
  note run = afterBnbFP_run [OF afterBnbFP_remaining [OF assms(1)], of pool, folded b1_def]
  have i: "i < length b1" using assms(2) by (simp add: b1_def afterSameDayFP_length)
  have w: "within30 disposal (b1 ! i)"
    using assms(2,3) by (simp add: within30_def b1_def afterSameDayFP_date)
  show ?thesis
  proof (cases "i \<in> set (bnbBuys disposal b1)")
    case True
    from matchBuysFP_exhausts [OF zero run assms(1) _ True]
    show ?thesis by (simp add: bnbBuys_props)
  next
    case False
    with i w have "\<not> 0 < t_remainingQty (b1 ! i)" by (simp add: bnbBuys_props)
    with matchBuysFP_untouched [OF run False] show ?thesis by simp
  qed
qed

lemma bnb_in_order:
  assumes "i < length buys" "j < length buys" "within30 disposal (buys ! i)"
      and "getTime (t_date (buys ! i)) < getTime (t_date (buys ! j))"
      and "buysOf (afterBnbFP rnd disposal buys pool) ! j \<noteq> buysOf (afterSameDayFP rnd disposal buys) ! j"
      and zero: "rnd 0 = 0"
  shows "\<not> 0 < t_remainingQty (buysOf (afterBnbFP rnd disposal buys pool) ! i)"
proof -
  define b1 where "b1 = buysOf (afterSameDayFP rnd disposal buys)"
  have r1: "0 < remainingOf (afterSameDayFP rnd disposal buys)"
    using assms(5) by (rule_tac ccontr) (simp add: afterBnbFP_skip)
  note run = afterBnbFP_run [OF r1, of pool, folded b1_def]
  have i: "i < length b1" using assms(1) by (simp add: b1_def afterSameDayFP_length)
  have w: "within30 disposal (b1 ! i)"
    using assms(1,3) by (simp add: within30_def b1_def afterSameDayFP_date)
  have key: "getTime (t_date (b1 ! i)) < getTime (t_date (b1 ! j))"
    using assms(1,2,4) by (simp add: b1_def afterSameDayFP_date)
  have changed: "buysOf (afterBnbFP rnd disposal buys pool) ! j \<noteq> b1 ! j"
    using assms(5) by (simp add: b1_def)
  show ?thesis
  proof (cases "i \<in> set (bnbBuys disposal b1)")
    case True
    from matchBuysFP_in_key_order [OF run bnbBuys_props(1) _ bnbBuys_props(2) True key changed zero]
    show ?thesis by (simp add: bnbBuys_props)
  next
    case False
    with i w have "\<not> 0 < t_remainingQty (b1 ! i)" by (simp add: bnbBuys_props)
    with matchBuysFP_untouched [OF run False] show ?thesis by simp
  qed
qed

text \<open>3. The pool comes last.\<close>

lemma section104_skip:
  "\<not> 0 < remainingOf (afterBnbFP rnd disposal buys pool) \<Longrightarrow>
     matchDisposalFP rnd disposal buys pool = (afterBnbFP rnd disposal buys pool, pool)"
  by (cases "afterBnbFP rnd disposal buys pool")
     (simp add: matchDisposalFP_def section104RuleFP_def remainingOf_def)

text \<open>The rules of the match details come in the order of the three rules.\<close>

lemma afterSameDayFP_rules: "\<forall>d \<in> set (detailsOf (afterSameDayFP rnd disposal buys)). md_rule d = SAME_DAY"
  using matchBuysFP_details [OF afterSameDayFP_run, where rl = SAME_DAY] sameDayDetailFP_fields by auto

lemma afterBnbFP_rules:
  "\<exists>bb. detailsOf (afterBnbFP rnd disposal buys pool) = detailsOf (afterSameDayFP rnd disposal buys) @ bb
        \<and> (\<forall>d \<in> set bb. md_rule d = BED_AND_BREAKFAST)"
proof (cases "0 < remainingOf (afterSameDayFP rnd disposal buys)")
  case True
  from matchBuysFP_details [OF afterBnbFP_run [OF True], where rl = BED_AND_BREAKFAST] bnbDetailFP_fields
  show ?thesis by blast
next
  case False
  then show ?thesis by (simp add: afterBnbFP_skip)
qed

lemma matchDisposalFP_rules:
  "\<exists>pl. detailsOf (fst (matchDisposalFP rnd disposal buys pool)) = detailsOf (afterBnbFP rnd disposal buys pool) @ pl
        \<and> length pl \<le> 1 \<and> (\<forall>d \<in> set pl. md_rule d = SECTION_104)"
proof -
  obtain r tc b ds p where m: "matchDisposalFP rnd disposal buys pool = ((r, tc, b, ds), p)"
    by (metis prod_cases4 surj_pair)
  obtain r2 tc2 b2 ds2 where a: "afterBnbFP rnd disposal buys pool = (r2, tc2, b2, ds2)"
    by (metis prod_cases4)
  from m a have "section104RuleFP rnd disposal (proceedsPerShareOfFP rnd disposal) ((r2, tc2, b2, ds2), pool)
                  = ((r, tc, b, ds), p)"
    by (simp add: matchDisposalFP_def)
  from section104RuleFP_details [OF this] m a show ?thesis by auto
qed


text \<open>Each rule changes only acquisitions that pass its own test.\<close>

lemma sameDay_own:
  assumes "buysOf (afterSameDayFP rnd disposal buys) ! j \<noteq> buys ! j"
  shows "j < length buys \<and> onSameDay disposal (buys ! j) \<and> 0 < t_remainingQty (buys ! j)"
proof -
  have "j \<in> set (sameDayBuys disposal buys)"
    using matchBuysFP_untouched [OF afterSameDayFP_run] assms by blast
  then show ?thesis by (simp add: sameDayBuys_props)
qed

lemma bnb_own:
  assumes "buysOf (afterBnbFP rnd disposal buys pool) ! j
             \<noteq> buysOf (afterSameDayFP rnd disposal buys) ! j"
  shows "j < length buys \<and> within30 disposal (buys ! j)
         \<and> 0 < t_remainingQty (buysOf (afterSameDayFP rnd disposal buys) ! j)"
proof -
  define b1 where "b1 = buysOf (afterSameDayFP rnd disposal buys)"
  have r1: "0 < remainingOf (afterSameDayFP rnd disposal buys)"
    using assms by (rule_tac ccontr) (simp add: afterBnbFP_skip)
  note run = afterBnbFP_run [OF r1, of pool, folded b1_def]
  have "j \<in> set (bnbBuys disposal b1)"
    using matchBuysFP_untouched [OF run] assms by (auto simp: b1_def)
  then have j: "j < length b1" "within30 disposal (b1 ! j)" "0 < t_remainingQty (b1 ! j)"
    by (simp_all add: bnbBuys_props)
  from j(1) have len: "j < length buys" by (simp add: b1_def afterSameDayFP_length)
  with j(2) have "within30 disposal (buys ! j)"
    by (simp add: within30_def b1_def afterSameDayFP_date)
  with len j(3) show ?thesis by (simp add: b1_def)
qed

lemma rollEarlierFP_untouched:
  "rollEarlierFP rnd cs (buys, pool) = (buys', pool') \<Longrightarrow> j \<notin> set cs \<Longrightarrow> buys' ! j = buys ! j"
proof (induction cs arbitrary: buys pool)
  case Nil
  then show ?case by simp
next
  case (Cons i rest)
  from Cons.prems(2) have ne: "j \<noteq> i" and nin: "j \<notin> set rest" by auto
  from Cons.prems(1) have "buys' ! j = (buys[i := (buys ! i)\<lparr>t_remainingQty := 0\<rparr>]) ! j"
    using Cons.IH [OF _ nin] by (simp add: Let_def)
  with ne show ?case by simp
qed

lemma afterBnbFP_length: "length (buysOf (afterBnbFP rnd disposal buys pool)) = length buys"
proof (cases "0 < remainingOf (afterSameDayFP rnd disposal buys)")
  case True
  from matchBuysFP_length [OF afterBnbFP_run [OF True]] show ?thesis
    by (simp add: afterSameDayFP_length)
next
  case False
  then show ?thesis by (simp add: afterBnbFP_skip afterSameDayFP_length)
qed

lemma afterBnbFP_date:
  assumes "i < length buys"
  shows "t_date (buysOf (afterBnbFP rnd disposal buys pool) ! i) = t_date (buys ! i)"
proof (cases "0 < remainingOf (afterSameDayFP rnd disposal buys)")
  case True
  from assms have "i < length (buysOf (afterSameDayFP rnd disposal buys))"
    by (simp add: afterSameDayFP_length)
  from matchBuysFP_date [OF afterBnbFP_run [OF True] this] assms show ?thesis
    by (simp add: afterSameDayFP_date)
next
  case False
  with assms show ?thesis by (simp add: afterBnbFP_skip afterSameDayFP_date)
qed

lemma section104_own:
  assumes "buysOf (fst (matchDisposalFP rnd disposal buys pool)) ! j
             \<noteq> buysOf (afterBnbFP rnd disposal buys pool) ! j"
  shows "j < length buys \<and> isEarlier disposal (buys ! j)
         \<and> 0 < t_remainingQty (buysOf (afterBnbFP rnd disposal buys pool) ! j)"
proof -
  obtain r2 tc2 b2 ds2 where a: "afterBnbFP rnd disposal buys pool = (r2, tc2, b2, ds2)"
    by (metis prod_cases4)
  have r2: "0 < r2"
    using assms a by (rule_tac ccontr) (simp add: section104_skip)
  obtain b3 p3 where roll: "rollEarlierFP rnd (earlierBuys disposal b2) (b2, pool) = (b3, p3)"
    by (cases "rollEarlierFP rnd (earlierBuys disposal b2) (b2, pool)")
  obtain r tc b ds p where d: "drawFromPoolFP rnd (proceedsPerShareOfFP rnd disposal)
                                  ((r2, tc2, b3, ds2), p3) = ((r, tc, b, ds), p)"
    by (metis prod_cases4 surj_pair)
  from drawFromPoolFP_details [OF d] have "b = b3" by blast
  with a r2 roll d have "buysOf (fst (matchDisposalFP rnd disposal buys pool)) = b3"
    by (simp add: matchDisposalFP_def section104RuleFP_def)
  with assms a have "b3 ! j \<noteq> b2 ! j" by simp
  with rollEarlierFP_untouched [OF roll] have "j \<in> set (earlierBuys disposal b2)" by blast
  then have j: "j < length b2" "earlierCandidate disposal (b2 ! j)"
    by (simp_all add: earlierBuys_def)
  have len: "length b2 = length buys"
    using afterBnbFP_length [of rnd disposal buys pool] a by simp
  have "t_date (b2 ! j) = t_date (buys ! j)"
    using afterBnbFP_date [of j buys rnd disposal pool] j(1) len a by simp
  with j len a show ?thesis by (simp add: earlierCandidate_def isEarlier_def)
qed

text \<open>Between two times that are each the start of a day, the days of the
  bed-and-breakfast test are the calendar days.\<close>

lemma getDaysDifference_midnight:
  assumes "atMidnight d1" "atMidnight d2"
  shows "getDaysDifference d1 d2 = calendarDay d2 - calendarDay d1"
proof -
  have t: "getTime d1 = msPerDay * calendarDay d1" "getTime d2 = msPerDay * calendarDay d2"
    using assms by (simp_all add: atMidnight_def calendarDay_def mod_eq_0_iff_dvd)
  have nz: "(of_int msPerDay :: rat) \<noteq> 0" by (simp add: msPerDay_def)
  have "getTime d2 - getTime d1 = msPerDay * (calendarDay d2 - calendarDay d1)"
    unfolding t by (simp only: right_diff_distrib)
  then have "(of_int (getTime d2 - getTime d1) :: rat) / of_int msPerDay
          = of_int msPerDay * of_int (calendarDay d2 - calendarDay d1) / of_int msPerDay"
    by (simp only: of_int_mult)
  also have "\<dots> = of_int (calendarDay d2 - calendarDay d1)"
    using nz by (rule nonzero_mult_div_cancel_left)
  finally have "(of_int (getTime d2 - getTime d1) :: rat) / of_int msPerDay
          = of_int (calendarDay d2 - calendarDay d1)" .
  then show ?thesis
    unfolding getDaysDifference_def by (simp only: Math_round_of_int)
qed

lemma within30_midnight:
  assumes "atMidnight (t_date disposal)" "atMidnight (t_date b)"
  shows "within30 disposal b
         = (0 < calendarDay (t_date b) - calendarDay (t_date disposal)
            \<and> calendarDay (t_date b) - calendarDay (t_date disposal) \<le> 30)"
  by (simp add: within30_def inWindow_def getDaysDifference_midnight [OF assms])




subsection \<open>The loop over the disposals in exact arithmetic\<close>

lemma processSymbol_afterDisposals:
  "processSymbol symbol transactions st =
     (case afterDisposals symbol transactions st (length (sellTxns transactions)) of
        (buys', st3) \<Rightarrow>
          st3\<lparr> section104Pools :=
                 store symbol (fold rollIn buys' (poolOf st3 symbol)) (section104Pools st3) \<rparr>)"
  by (simp add: processSymbol_def afterDisposals_def buyTxns_def sellTxns_def Let_def)

subsection \<open>The tax year summaries\<close>

lemma fold_snoc: "fold f (xs @ [x]) a = f x (fold f xs a)"
  by simp

lemma set_objectKeys [simp]: "set (objectKeys ks) = set ks"
  by (auto simp: objectKeys_def Let_def)

lemma objectEntries_set:
  "(k, v) \<in> set (objectEntries obj) \<longleftrightarrow> (k \<in> fst ` set obj \<and> map_of obj k = Some v)"
proof
  assume "(k, v) \<in> set (objectEntries obj)"
  then have k: "k \<in> fst ` set obj" and v: "v = the (map_of obj k)"
    by (auto simp: objectEntries_def)
  from k obtain w where "map_of obj k = Some w"
    by (metis domD dom_map_of_conv_image_fst)
  with k v show "k \<in> fst ` set obj \<and> map_of obj k = Some v" by simp
next
  assume "k \<in> fst ` set obj \<and> map_of obj k = Some v"
  then show "(k, v) \<in> set (objectEntries obj)"
    by (auto simp: objectEntries_def image_iff)
qed

lemma sumGains_snoc:
  "sumGains (ds @ [d]) = sumGains ds + (if d_gain d \<ge> 0 then d_gain d else 0)"
  by (simp add: sumGains_def)

lemma sumLosses_snoc:
  "sumLosses (ds @ [d]) = sumLosses ds + (if d_gain d \<ge> 0 then 0 else \<bar>d_gain d\<bar>)"
  by (simp add: sumLosses_def)

text \<open>The first loop of \<^verbatim>\<open>generateReport\<close> collects, for each tax year label, the
  disposals of that year in their order, and the sums of their gains and losses.\<close>

lemma fold_addToYear:
  "map_of (fold addToYear ds []) y =
     (if y \<in> d_taxYear ` set ds
      then Some \<lparr> y_year = y, y_config = map_of TAX_YEARS y,
                  y_disposals = filter (\<lambda>d. d_taxYear d = y) ds,
                  y_totalGains = sumGains (filter (\<lambda>d. d_taxYear d = y) ds),
                  y_totalLosses = sumLosses (filter (\<lambda>d. d_taxYear d = y) ds) \<rparr>
      else None)"
proof (induction ds arbitrary: y rule: rev_induct)
  case Nil
  then show ?case by simp
next
  case (snoc d ds)
  show ?case
  proof (cases "y = d_taxYear d")
    case True
    show ?thesis
    proof (cases "d_taxYear d \<in> d_taxYear ` set ds")
      case in_ds: True
      then show ?thesis
        using True snoc.IH [of "d_taxYear d"]
        by (simp add: addToYear_def Let_def sumGains_snoc sumLosses_snoc)
    next
      case False
      then have "\<forall>x \<in> set ds. d_taxYear x \<noteq> d_taxYear d" by (metis imageI)
      then have "filter (\<lambda>x. d_taxYear x = d_taxYear d) ds = []"
        by (simp add: filter_empty_conv)
      with False show ?thesis
        using True snoc.IH [of "d_taxYear d"]
        by (simp add: addToYear_def Let_def sumGains_def sumLosses_def)
    qed
  next
    case False
    then show ?thesis
      using snoc.IH [of y] by (simp add: addToYear_def Let_def)
  qed
qed

lemma fold_addToYear_keys: "fst ` set (fold addToYear ds []) = d_taxYear ` set ds"
proof -
  have "dom (map_of (fold addToYear ds [])) = d_taxYear ` set ds"
    by (auto simp: fold_addToYear dom_def)
  then show ?thesis by (simp add: dom_map_of_conv_image_fst)
qed

text \<open>The year data behind each summary of the report.\<close>

lemma taxYearSummaries_set:
  "s \<in> set (taxYearSummaries hostParse snaps ds) \<longleftrightarrow>
     (\<exists>y \<in> d_taxYear ` set ds.
        s = summarize hostParse snaps
              \<lparr> y_year = y, y_config = map_of TAX_YEARS y,
                y_disposals = filter (\<lambda>d. d_taxYear d = y) ds,
                y_totalGains = sumGains (filter (\<lambda>d. d_taxYear d = y) ds),
                y_totalLosses = sumLosses (filter (\<lambda>d. d_taxYear d = y) ds) \<rparr>)"
proof -
  have "snd ` set (objectEntries (fold addToYear ds [])) =
          (\<lambda>y. \<lparr> y_year = y, y_config = map_of TAX_YEARS y,
                y_disposals = filter (\<lambda>d. d_taxYear d = y) ds,
                y_totalGains = sumGains (filter (\<lambda>d. d_taxYear d = y) ds),
                y_totalLosses = sumLosses (filter (\<lambda>d. d_taxYear d = y) ds) \<rparr>) ` d_taxYear ` set ds"
    (is "?L = ?R")
  proof (rule set_eqI)
    fix yd
    have "yd \<in> ?L \<longleftrightarrow> (\<exists>k. (k, yd) \<in> set (objectEntries (fold addToYear ds [])))"
      by force
    also have "\<dots> \<longleftrightarrow> (\<exists>k. k \<in> d_taxYear ` set ds \<and> map_of (fold addToYear ds []) k = Some yd)"
      by (simp add: objectEntries_set fold_addToYear_keys)
    also have "\<dots> \<longleftrightarrow> yd \<in> ?R"
      by (auto simp: fold_addToYear)
    finally show "yd \<in> ?L \<longleftrightarrow> yd \<in> ?R" .
  qed
  moreover have "set (taxYearSummaries hostParse snaps ds)
                   = summarize hostParse snaps ` snd ` set (objectEntries (fold addToYear ds []))"
    unfolding taxYearSummaries_def by (simp add: image_image)
  ultimately have "set (taxYearSummaries hostParse snaps ds) = summarize hostParse snaps ` ?R"
    by simp
  then show ?thesis by (simp add: image_iff Bex_def) blast
qed

lemma round2dp_int: "round2dp (of_int n) = of_int n"
  using round2dp_of_int [of "n * 100"] by simp

lemma round2dp_numeral [simp]: "round2dp (numeral k) = numeral k"
  using round2dp_int [of "numeral k"] by simp

lemma is2dp_neg: "round2dp a = a \<Longrightarrow> round2dp (- a) = - a"
  using is2dp_diff [of 0 a] by simp

lemma is2dp_max0: "round2dp a = a \<Longrightarrow> round2dp (max 0 a) = max 0 a"
  by (simp add: max_def)

text \<open>Every gain that \<^verbatim>\<open>processDisposal\<close> records is in whole pence.\<close>

lemma processDisposal_gains:
  assumes "\<forall>d \<in> set (disposals st). round2dp (d_gain d) = d_gain d"
  shows "\<forall>d \<in> set (disposals (snd (processDisposal symbol disposal (buys, st)))).
           round2dp (d_gain d) = d_gain d"
proof -
  obtain r tc b ds pool' where m: "matchDisposal disposal buys (poolOf st symbol) = ((r, tc, b, ds), pool')"
    by (metis prod_cases4 surj_pair)
  show ?thesis using assms by (simp add: processDisposal_def m Let_def)
qed

lemma fold_processDisposal_gains:
  "\<forall>d \<in> set (disposals st). round2dp (d_gain d) = d_gain d \<Longrightarrow>
     \<forall>d \<in> set (disposals (snd (fold (processDisposal symbol) sells (buys, st)))).
        round2dp (d_gain d) = d_gain d"
proof (induction sells arbitrary: buys st)
  case Nil
  then show ?case by simp
next
  case (Cons s sells)
  obtain b1 st1 where step: "processDisposal symbol s (buys, st) = (b1, st1)"
    by (cases "processDisposal symbol s (buys, st)")
  with processDisposal_gains [OF Cons.prems, of symbol s buys]
  have "\<forall>d \<in> set (disposals st1). round2dp (d_gain d) = d_gain d" by simp
  from Cons.IH [OF this, of b1] step show ?case by simp
qed

lemma processSymbol_gains:
  assumes "\<forall>d \<in> set (disposals st). round2dp (d_gain d) = d_gain d"
  shows "\<forall>d \<in> set (disposals (processSymbol symbol transactions st)). round2dp (d_gain d) = d_gain d"
proof -
  have "\<forall>d \<in> set (disposals (beginSymbol symbol transactions st)). round2dp (d_gain d) = d_gain d"
    using assms by (simp add: beginSymbol_def Let_def)
  from fold_processDisposal_gains [OF this, of symbol "sellTxns transactions" "buyTxns transactions"]
  show ?thesis
    by (simp add: processSymbol_afterDisposals afterDisposals_def split: prod.splits)
qed

lemma processAll_gains:
  "\<forall>d \<in> set (disposals (processAll transactions newCalculator)). round2dp (d_gain d) = d_gain d"
proof -
  have "\<forall>d \<in> set (disposals (fold (\<lambda>s. processSymbol s (filter (\<lambda>t. t_symbol t = s) transactions))
                                 ks st)). round2dp (d_gain d) = d_gain d"
    if "\<forall>d \<in> set (disposals st). round2dp (d_gain d) = d_gain d" for ks st
    using that
  proof (induction ks arbitrary: st)
    case Nil
    then show ?case by simp
  next
    case (Cons k ks)
    from processSymbol_gains [OF Cons.prems]
    have "\<forall>d \<in> set (disposals (processSymbol k (filter (\<lambda>t. t_symbol t = k) transactions) st)).
            round2dp (d_gain d) = d_gain d" .
    from Cons.IH [OF this] show ?case by simp
  qed
  note step = this
  have "\<forall>d \<in> set (disposals newCalculator). round2dp (d_gain d) = d_gain d"
    by (simp add: newCalculator_def)
  from step [OF this] show ?thesis unfolding processAll_def .
qed

lemma sumGains_2dp:
  "\<forall>d \<in> set ds. round2dp (d_gain d) = d_gain d \<Longrightarrow> round2dp (sumGains ds) = sumGains ds"
  unfolding sumGains_def by (rule is2dp_sum_list) simp

lemma sumLosses_2dp:
  "\<forall>d \<in> set ds. round2dp (d_gain d) = d_gain d \<Longrightarrow> round2dp (sumLosses ds) = sumLosses ds"
  unfolding sumLosses_def by (rule is2dp_sum_list) (auto simp: is2dp_neg)

text \<open>The annual exempt amount that the report applies to a year.\<close>

lemma reportExemption:
  "num_or (cfgNum (map_of TAX_YEARS y) c_annualExemption) 3000
     = (case map_of TAX_YEARS y of Some c \<Rightarrow> c_annualExemption c | None \<Rightarrow> 3000)
   \<and> round2dp (num_or (cfgNum (map_of TAX_YEARS y) c_annualExemption) 3000)
       = num_or (cfgNum (map_of TAX_YEARS y) c_annualExemption) 3000"
  by (simp add: TAX_YEARS_def plainYear_def cfgNum_def num_or_def)

lemma summarize_fields:
  "s_taxYear (summarize hostParse snaps yd) = y_year yd"
  "s_disposals (summarize hostParse snaps yd) = y_disposals yd"
  "s_numberOfDisposals (summarize hostParse snaps yd) = length (y_disposals yd)"
  "s_totalGains (summarize hostParse snaps yd) = round2dp (y_totalGains yd)"
  "s_totalLosses (summarize hostParse snaps yd) = round2dp (y_totalLosses yd)"
  "s_netGain (summarize hostParse snaps yd) = round2dp (y_totalGains yd - y_totalLosses yd)"
  "s_annualExemption (summarize hostParse snaps yd)
     = num_or (cfgNum (y_config yd) c_annualExemption) 3000"
  "s_taxableGain (summarize hostParse snaps yd)
     = round2dp (max 0 (round2dp (y_totalGains yd - y_totalLosses yd)
                        - num_or (cfgNum (y_config yd) c_annualExemption) 3000))"
  by (simp_all add: summarize_def Let_def split: prod.splits)


lemma generateReport_Inr:
  assumes "generateReport hostParse now st = Inr rep"
  obtains snaps where "calculateSection104Snapshots hostParse st = Inr snaps"
    "taxYears rep = taxYearSummaries hostParse snaps (disposals st)"
    "allDisposals rep = disposals st" "rep_errors rep = errors st"
    "rep_acquisitions rep = acquisitions st"
    "rep_section104Pools rep = section104Summary (section104Pools st)"
    "generatedAt rep = now"
  using assms unfolding generateReport_def
  by (cases "calculateSection104Snapshots hostParse st") auto

text \<open>
  Claim C4. In the report of \<^verbatim>\<open>calculateCGT\<close>, every tax year summary holds the disposals
  whose tax year label is its own; its total gains are the sum of their gains that are not
  negative, its total losses the sum of the absolute values of their negative gains, its net
  gain is the gains minus the losses, its annual exempt amount is that of the tax-year table
  for its label (3000 for a label that the table does not have), and its taxable gain is the
  net gain minus that amount, or 0 if that is negative. In 2023/24 a net gain of 8000 meets
  the exempt amount 6000 and gives a taxable gain of 2000.
\<close>

theorem tax_year_summary_arithmetic:
  assumes "calculateCGT hostParse clock now rawTransactions = Inr rep"
      and "s \<in> set (taxYears rep)"
  shows "s_disposals s = filter (\<lambda>d. d_taxYear d = s_taxYear s) (allDisposals rep)
       \<and> s_totalGains s = sum_list (map d_gain (filter (\<lambda>d. d_gain d \<ge> 0) (s_disposals s)))
       \<and> s_totalLosses s
           = sum_list (map (\<lambda>d. \<bar>d_gain d\<bar>) (filter (\<lambda>d. \<not> d_gain d \<ge> 0) (s_disposals s)))
       \<and> s_netGain s = s_totalGains s - s_totalLosses s
       \<and> s_annualExemption s
           = (case map_of TAX_YEARS (s_taxYear s) of Some c \<Rightarrow> c_annualExemption c | None \<Rightarrow> 3000)
       \<and> s_taxableGain s = max 0 (s_netGain s - s_annualExemption s)
       \<and> (s_taxYear s = ''2023/24'' \<and> s_netGain s = 8000
            \<longrightarrow> s_annualExemption s = 6000 \<and> s_taxableGain s = 2000)"
proof -
  define st where "st = processAll (normalizeTransactions hostParse clock rawTransactions) newCalculator"
  from assms(1) have "generateReport hostParse now st = Inr rep"
    by (simp add: calculateCGT_def st_def)
  then obtain snaps where rep: "taxYears rep = taxYearSummaries hostParse snaps (disposals st)"
    "allDisposals rep = disposals st"
    by (rule generateReport_Inr)
  define ds where "ds = disposals st"
  from assms(2) rep(1) have "s \<in> set (taxYearSummaries hostParse snaps ds)"
    by (simp add: ds_def)
  then have "\<exists>y \<in> d_taxYear ` set ds.
        s = summarize hostParse snaps
              \<lparr> y_year = y, y_config = map_of TAX_YEARS y,
                y_disposals = filter (\<lambda>d. d_taxYear d = y) ds,
                y_totalGains = sumGains (filter (\<lambda>d. d_taxYear d = y) ds),
                y_totalLosses = sumLosses (filter (\<lambda>d. d_taxYear d = y) ds) \<rparr>"
    by (simp only: taxYearSummaries_set)
  then obtain y where y: "y \<in> d_taxYear ` set ds"
    and s: "s = summarize hostParse snaps
              \<lparr> y_year = y, y_config = map_of TAX_YEARS y,
                y_disposals = filter (\<lambda>d. d_taxYear d = y) ds,
                y_totalGains = sumGains (filter (\<lambda>d. d_taxYear d = y) ds),
                y_totalLosses = sumLosses (filter (\<lambda>d. d_taxYear d = y) ds) \<rparr>"
    by (rule bexE)
  define yds where "yds = filter (\<lambda>d. d_taxYear d = y) ds"
  have pence: "\<forall>d \<in> set yds. round2dp (d_gain d) = d_gain d"
    using processAll_gains [of "normalizeTransactions hostParse clock rawTransactions"]
    by (simp add: yds_def ds_def st_def)
  note g = sumGains_2dp [OF pence] and l = sumLosses_2dp [OF pence]
  note ex = reportExemption [of y]
  have year: "s_taxYear s = y" and dsp: "s_disposals s = yds"
    by (simp_all add: s summarize_fields yds_def)
  have gains: "s_totalGains s = sumGains yds" and losses: "s_totalLosses s = sumLosses yds"
    by (simp_all add: s summarize_fields g l flip: yds_def)
  have net: "s_netGain s = sumGains yds - sumLosses yds"
    by (simp add: s summarize_fields is2dp_diff [OF g l] flip: yds_def)
  have exempt: "s_annualExemption s
                  = (case map_of TAX_YEARS y of Some c \<Rightarrow> c_annualExemption c | None \<Rightarrow> 3000)"
    and exempt2: "round2dp (s_annualExemption s) = s_annualExemption s"
  proof -
    have e: "s_annualExemption s = num_or (cfgNum (map_of TAX_YEARS y) c_annualExemption) 3000"
      by (simp add: s summarize_fields)
    show "s_annualExemption s
            = (case map_of TAX_YEARS y of Some c \<Rightarrow> c_annualExemption c | None \<Rightarrow> 3000)"
      unfolding e using ex by (rule conjunct1)
    show "round2dp (s_annualExemption s) = s_annualExemption s"
      unfolding e using ex by (rule conjunct2)
  qed
  have "s_taxableGain s = round2dp (max 0 (s_netGain s - s_annualExemption s))"
    by (simp add: s summarize_fields is2dp_diff [OF g l] flip: yds_def)
  also have "\<dots> = max 0 (s_netGain s - s_annualExemption s)"
    by (rule is2dp_max0, rule is2dp_diff) (simp_all add: net is2dp_diff [OF g l] exempt2)
  finally have taxable: "s_taxableGain s = max 0 (s_netGain s - s_annualExemption s)" .
  have y2023: "s_annualExemption s = 6000" if "s_taxYear s = ''2023/24''"
    using that exempt year by (simp add: TAX_YEARS_def plainYear_def)
  show ?thesis
  proof (intro conjI impI)
    show "s_disposals s = filter (\<lambda>d. d_taxYear d = s_taxYear s) (allDisposals rep)"
      by (simp add: dsp year yds_def rep(2) ds_def)
    show "s_totalGains s = sum_list (map d_gain (filter (\<lambda>d. d_gain d \<ge> 0) (s_disposals s)))"
      by (simp add: gains dsp sumGains_def)
    show "s_totalLosses s
           = sum_list (map (\<lambda>d. \<bar>d_gain d\<bar>) (filter (\<lambda>d. \<not> d_gain d \<ge> 0) (s_disposals s)))"
      by (simp add: losses dsp sumLosses_def)
    show "s_netGain s = s_totalGains s - s_totalLosses s"
      by (simp add: net gains losses)
    show "s_annualExemption s
           = (case map_of TAX_YEARS (s_taxYear s) of Some c \<Rightarrow> c_annualExemption c | None \<Rightarrow> 3000)"
      by (simp add: exempt year)
    show "s_taxableGain s = max 0 (s_netGain s - s_annualExemption s)"
      by (rule taxable)
  next
    assume a: "s_taxYear s = ''2023/24'' \<and> s_netGain s = 8000"
    then show "s_annualExemption s = 6000" using y2023 by simp
    with a taxable show "s_taxableGain s = 2000" by simp
  qed
qed

text \<open>Scenario D: 100 XYZ bought at 20 on 1 May 2023 and sold at 100 on 1 June 2023, a gain
  of 8000 in 2023/24. The taxable gain follows from the theorem.\<close>

theorem tax_year_summary_arithmetic_witness:
  "\<exists>rep s. calculateCGT noHostParse clock0 (Date 0)
              [trade ''BUY'' ''XYZ'' ''2023-05-01'' 100 20,
               trade ''SELL'' ''XYZ'' ''2023-06-01'' 100 100] = Inr rep
           \<and> taxYears rep = [s] \<and> s_taxYear s = ''2023/24'' \<and> s_netGain s = 8000
           \<and> s_annualExemption s = 6000 \<and> s_taxableGain s = 2000"
proof -
  define R where "R = calculateCGT noHostParse clock0 (Date 0)
              [trade ''BUY'' ''XYZ'' ''2023-05-01'' 100 20,
               trade ''SELL'' ''XYZ'' ''2023-06-01'' 100 100]"
  have ev: "map_sum id (\<lambda>r. map (\<lambda>s. (s_taxYear s, s_netGain s)) (taxYears r)) R
              = Inr [(''2023/24'', 8000)]"
    unfolding R_def by code_simp
  then obtain rep where rep: "R = Inr rep"
    "map (\<lambda>s. (s_taxYear s, s_netGain s)) (taxYears rep) = [(''2023/24'', 8000)]"
    by (cases R) auto
  from rep(2) obtain s where s: "taxYears rep = [s]" "s_taxYear s = ''2023/24''" "s_netGain s = 8000"
    by auto
  have "s \<in> set (taxYears rep)" using s(1) by simp
  from tax_year_summary_arithmetic [OF rep(1) [unfolded R_def] this] s(2,3)
  have "s_annualExemption s = 6000 \<and> s_taxableGain s = 2000" by blast
  with rep(1) s show ?thesis unfolding R_def by blast
qed

end
